theory Spec2Isabelle
  imports Main "HOL-Library.Sublist" "HOL-Library.Multiset"
begin

section \<open>osc-bsu-backup: the data model\<close>

text \<open>
  The module \<^verbatim>\<open>osc_bsu_backup/bsu_backup.py\<close> talks to a remote EC2-style service
  through a client handle \<^verbatim>\<open>conn\<close>. The embedding below keeps the names of the
  source. Exceptions are values of the type \<open>error\<close>; a function of the source that
  can raise returns a sum, with \<open>Inl\<close> for the exception.
\<close>

text \<open>
  The exceptions that a call of the client library raises: \<open>ClientError code\<close> is
  \<^verbatim>\<open>botocore.exceptions.ClientError\<close> with
  \<^verbatim>\<open>e.response["Error"]["Code"] == code\<close>; \<open>OtherError\<close> stands for every
  exception of the library that is not a \<^verbatim>\<open>ClientError\<close>.
\<close>

datatype api_error =
    ClientError string
  | OtherError string

text \<open>
  The exceptions that leave a function of the module: \<^verbatim>\<open>InputError\<close> of
  \<^verbatim>\<open>osc_bsu_backup.error\<close>, Python's \<^verbatim>\<open>IndexError\<close>, and an exception
  of the client library that the module does not catch.
\<close>

datatype error =
    InputError
  | IndexError
  | ApiError api_error

record FilterTypeDef =
  Name :: string
  Values :: "string list"

text \<open>
  A snapshot as \<^verbatim>\<open>describe_snapshots\<close> returns it. \<open>StartTime\<close> is an aware
  \<^verbatim>\<open>datetime\<close>; it is held as the number of microseconds since the epoch (UTC),
  which is what comparison and subtraction of aware datetimes work on.
\<close>

record snapshot =
  SnapshotId :: string
  VolumeId :: string
  StartTime :: int
  Description :: string

text \<open>
  The parts of the responses of \<^verbatim>\<open>describe_instances\<close> and
  \<^verbatim>\<open>describe_volumes\<close> that the module reads. A key that the source indexes
  (\<^verbatim>\<open>reservation["Instances"]\<close>, \<^verbatim>\<open>vol["Ebs"]["VolumeId"]\<close>) is a field: the
  responses are taken to have the shape that the type definitions of
  \<^verbatim>\<open>mypy_boto3_ec2\<close> give them. A key read with \<^verbatim>\<open>.get(key, [])\<close> is an
  option.
\<close>

record ebs =
  Ebs_VolumeId :: string

record block_device_mapping =
  Ebs :: ebs

record ec2_instance =
  InstanceId :: string
  BlockDeviceMappings :: "block_device_mapping list"

record reservation =
  Instances :: "ec2_instance list"

record volume =
  Volume_VolumeId :: string

datatype event =
    DescribeKeyPairs
  | DescribeInstances
  | DescribeVolumes
  | DescribeSnapshots "FilterTypeDef list"
  | DeleteSnapshot string
  | LogError api_error

text \<open>
  The client handle together with the account it is connected to.

  \<^item> \<open>session_fault\<close>: the exception that \<^verbatim>\<open>boto3.Session(profile_name=...)\<close>
    raises for a profile (\<^verbatim>\<open>ProfileNotFound\<close>, for one), \<open>None\<close> when the session
    is created;
  \<^item> \<open>client_fault\<close>: the exception that \<^verbatim>\<open>session.client("ec2", ...)\<close> raises
    for a session (held as its profile), a region, an endpoint and a client certificate
    (\<^verbatim>\<open>NoRegionError\<close>, for one), \<open>None\<close> when the client is created;
  \<^item> \<open>key_pairs\<close>: the outcome of \<^verbatim>\<open>describe_key_pairs()\<close>, the list under
    \<^verbatim>\<open>"KeyPairs"\<close> or the exception of the call;
  \<^item> \<open>instances_by_id\<close>, \<open>instances_by_filters\<close>, \<open>volumes_by_filters\<close>: the
    answer of the service to \<^verbatim>\<open>describe_instances(InstanceIds=...)\<close>,
    \<^verbatim>\<open>describe_instances(Filters=...)\<close> and \<^verbatim>\<open>describe_volumes(Filters=...)\<close>;
    \<open>None\<close> is a response without the key \<^verbatim>\<open>"Reservations"\<close> or
    \<^verbatim>\<open>"Volumes"\<close>. Nothing is assumed about these answers;
  \<^item> \<open>snapshots\<close>: the snapshots of the account, in the order in which the service
    lists them;
  \<^item> \<open>delete_fault\<close>: the exception that \<^verbatim>\<open>delete_snapshot\<close> raises for a
    snapshot identifier, \<open>None\<close> when the deletion succeeds;
  \<^item> \<open>clock\<close>, \<open>ticks\<close>: the local clock. The \<open>n\<close>-th call of
    \<^verbatim>\<open>datetime.now(timezone.utc)\<close> reads \<open>clock n\<close> (microseconds since the
    epoch), and \<open>ticks\<close> counts the calls made so far;
  \<^item> \<open>trace\<close>: the requests sent to the service and the messages logged at error
    level, oldest first.
\<close>

record conn =
  session_fault :: "string option \<Rightarrow> api_error option"
  client_fault :: "string option \<Rightarrow> string option \<Rightarrow> string option \<Rightarrow> string option \<Rightarrow> api_error option"
  key_pairs :: "api_error + string list"
  instances_by_id :: "string list \<Rightarrow> api_error + reservation list option"
  instances_by_filters :: "FilterTypeDef list \<Rightarrow> api_error + reservation list option"
  volumes_by_filters :: "FilterTypeDef list \<Rightarrow> api_error + volume list option"
  snapshots :: "snapshot list"
  delete_fault :: "string \<Rightarrow> api_error option"
  clock :: "nat \<Rightarrow> int"
  ticks :: nat
  trace :: "event list"

section \<open>The remote operations on snapshots\<close>

text \<open>
  The filters of the service: a resource passes a filter when one of the filter's values
  is among the values the resource has for the filter's name, and it passes a request
  when it passes every filter of the request. Values are compared literally: the
  wildcards that the service accepts in a filter value are left out, and none of the
  strings of \<^verbatim>\<open>OLD_DESCRIPTION\<close> holds one.

  \<^verbatim>\<open>describe_snapshots\<close> is taken to answer, with all matching snapshots in one
  response; the module does not catch an exception of this request and reads one
  response only. The outcome of \<^verbatim>\<open>delete_snapshot\<close> is what \<open>delete_fault\<close>
  says for the identifier: the exception, or the removal of the snapshots of that
  identifier from the account. Both requests are recorded in the trace.
\<close>

definition snapshot_attr :: "snapshot \<Rightarrow> string \<Rightarrow> string list" where
  "snapshot_attr s n =
     (if n = ''volume-id'' then [VolumeId s]
      else if n = ''description'' then [Description s]
      else [])"

definition filter_matches :: "(string \<Rightarrow> string list) \<Rightarrow> FilterTypeDef \<Rightarrow> bool" where
  "filter_matches attr f = list_ex (\<lambda>v. v \<in> set (attr (Name f))) (Values f)"

definition filters_match :: "(string \<Rightarrow> string list) \<Rightarrow> FilterTypeDef list \<Rightarrow> bool" where
  "filters_match attr fs = list_all (filter_matches attr) fs"

definition describe_snapshots :: "conn \<Rightarrow> FilterTypeDef list \<Rightarrow> snapshot list \<times> conn" where
  "describe_snapshots c fs =
     (filter (\<lambda>s. filters_match (snapshot_attr s) fs) (snapshots c),
      c\<lparr>trace := trace c @ [DescribeSnapshots fs]\<rparr>)"

definition delete_snapshot :: "conn \<Rightarrow> string \<Rightarrow> (api_error + unit) \<times> conn" where
  "delete_snapshot c sid =
     (let c1 = c\<lparr>trace := trace c @ [DeleteSnapshot sid]\<rparr> in
      case delete_fault c sid of
        Some e \<Rightarrow> (Inl e, c1)
      | None \<Rightarrow> (Inr (), c1\<lparr>snapshots := filter (\<lambda>s. SnapshotId s \<noteq> sid) (snapshots c1)\<rparr>))"

definition logger_error :: "conn \<Rightarrow> api_error \<Rightarrow> conn" where
  "logger_error c e = c\<lparr>trace := trace c @ [LogError e]\<rparr>"

definition datetime_now :: "conn \<Rightarrow> int \<times> conn" where
  "datetime_now c = (clock c (ticks c), c\<lparr>ticks := Suc (ticks c)\<rparr>)"

section \<open>Rotation\<close>

definition OLD_DESCRIPTION :: "string list" where
  "OLD_DESCRIPTION = [''osc-bsu-backup 0.1'', ''osc-bsu-backup 0.0.2'', ''osc-bsu-backup 0.0.1'']"

text \<open>
  \<^verbatim>\<open>generate_description\<close> formats the current time with
  \<^verbatim>\<open>'%Y-%m-%d %H:%M:%S %Z'\<close>; the formatted time is the argument here.
\<close>

definition generate_description :: "string \<Rightarrow> string" where
  "generate_description stamp = ''osc-bsu-backup: Automated volume snapshot - '' @ stamp"

definition rotate_filters :: "string \<Rightarrow> bool \<Rightarrow> FilterTypeDef list" where
  "rotate_filters vol rotate_only =
     [\<lparr>Name = ''volume-id'', Values = [vol]\<rparr>] @
     (if rotate_only then [\<lparr>Name = ''description'', Values = OLD_DESCRIPTION\<rparr>] else [])"

text \<open>
  \<^verbatim>\<open>snaps["Snapshots"].sort(key=lambda x: x["StartTime"], reverse=True)\<close>: Python's
  sort is stable, also with \<^verbatim>\<open>reverse=True\<close>, so snapshots of equal time keep
  their order. A stable ascending sort on the negated time does the same.
\<close>

definition sort_reverse :: "snapshot list \<Rightarrow> snapshot list" where
  "sort_reverse snaps = sort_key (\<lambda>x. - StartTime x) snaps"

text \<open>
  The \<^verbatim>\<open>try\<close> statement around \<^verbatim>\<open>conn.delete_snapshot\<close>, shared by both
  rotations: an \<^verbatim>\<open>InvalidSnapshot.InUse\<close> client error is logged and swallowed,
  every other exception is raised again.
\<close>

definition try_delete :: "conn \<Rightarrow> snapshot \<Rightarrow> (error + unit) \<times> conn" where
  "try_delete c snap =
     (case delete_snapshot c (SnapshotId snap) of
        (Inr u, c1) \<Rightarrow> (Inr (), c1)
      | (Inl e, c1) \<Rightarrow>
          (case e of
             ClientError code \<Rightarrow>
               if code = ''InvalidSnapshot.InUse'' then (Inr (), logger_error c1 e)
               else (Inl (ApiError e), c1)
           | _ \<Rightarrow> (Inl (ApiError e), c1)))"

text \<open>\<^verbatim>\<open>for i, snap in enumerate(snaps["Snapshots"]): if i >= rotate: ...\<close>\<close>

fun rotate_enumerate :: "int \<Rightarrow> nat \<Rightarrow> snapshot list \<Rightarrow> conn \<Rightarrow> (error + unit) \<times> conn" where
  "rotate_enumerate rot i [] c = (Inr (), c)"
| "rotate_enumerate rot i (snap # rest) c =
     (if int i \<ge> rot then
        (case try_delete c snap of
           (Inl e, c1) \<Rightarrow> (Inl e, c1)
         | (Inr u, c1) \<Rightarrow> rotate_enumerate rot (Suc i) rest c1)
      else rotate_enumerate rot (Suc i) rest c)"

text \<open>The body of \<^verbatim>\<open>for vol in volumes\<close> in \<^verbatim>\<open>rotate_snapshots\<close>.\<close>

definition rotate_snapshots_vol :: "int \<Rightarrow> bool \<Rightarrow> conn \<Rightarrow> string \<Rightarrow> (error + unit) \<times> conn" where
  "rotate_snapshots_vol rot rotate_only c vol =
     (case describe_snapshots c (rotate_filters vol rotate_only) of
        (snaps, c1) \<Rightarrow>
          if int (length snaps) \<ge> rot
          then rotate_enumerate rot 0 (sort_reverse snaps) c1
          else (Inr (), c1))"

text \<open>
  \<^verbatim>\<open>for vol in volumes\<close>: an exception that leaves the body leaves the loop and
  the function.
\<close>

fun for_volumes :: "(conn \<Rightarrow> string \<Rightarrow> (error + unit) \<times> conn) \<Rightarrow> string list \<Rightarrow> conn \<Rightarrow> (error + unit) \<times> conn" where
  "for_volumes body [] c = (Inr (), c)"
| "for_volumes body (vol # vols) c =
     (case body c vol of
        (Inl e, c1) \<Rightarrow> (Inl e, c1)
      | (Inr u, c1) \<Rightarrow> for_volumes body vols c1)"

definition rotate_snapshots :: "conn \<Rightarrow> string list \<Rightarrow> int \<Rightarrow> bool \<Rightarrow> (error + unit) \<times> conn" where
  "rotate_snapshots c volumes rot rotate_only =
     for_volumes (rotate_snapshots_vol rot rotate_only) volumes c"

text \<open>
  \<^verbatim>\<open>(datetime.now(timezone.utc) - snap["StartTime"]).days\<close>: a \<^verbatim>\<open>timedelta\<close>
  is normalised with \<open>0 \<le> seconds < 86400\<close>, so \<^verbatim>\<open>days\<close> is the floor of the
  difference divided by one day, negative for a time in the future.
\<close>

definition timedelta_days :: "int \<Rightarrow> int" where
  "timedelta_days us = us div 86400000000"

text \<open>\<^verbatim>\<open>for snap in snaps["Snapshots"]\<close> in \<^verbatim>\<open>rotate_days_snapshots\<close>.\<close>

fun rotate_days_for :: "int \<Rightarrow> snapshot list \<Rightarrow> conn \<Rightarrow> (error + unit) \<times> conn" where
  "rotate_days_for rot [] c = (Inr (), c)"
| "rotate_days_for rot (snap # rest) c =
     (case datetime_now c of
        (now, c0) \<Rightarrow>
          if timedelta_days (now - StartTime snap) \<ge> rot then
            (case try_delete c0 snap of
               (Inl e, c1) \<Rightarrow> (Inl e, c1)
             | (Inr u, c1) \<Rightarrow> rotate_days_for rot rest c1)
          else rotate_days_for rot rest c0)"

definition rotate_days_snapshots_vol :: "int \<Rightarrow> bool \<Rightarrow> conn \<Rightarrow> string \<Rightarrow> (error + unit) \<times> conn" where
  "rotate_days_snapshots_vol rot rotate_only c vol =
     (case describe_snapshots c (rotate_filters vol rotate_only) of
        (snaps, c1) \<Rightarrow> rotate_days_for rot snaps c1)"

definition rotate_days_snapshots :: "conn \<Rightarrow> string list \<Rightarrow> int \<Rightarrow> bool \<Rightarrow> (error + unit) \<times> conn" where
  "rotate_days_snapshots c volumes rot rotate_only =
     for_volumes (rotate_days_snapshots_vol rot rotate_only) volumes c"

section \<open>The locator\<close>

text \<open>
  \<^verbatim>\<open>str.split(sep)\<close> with a separator of one character: the pieces between the
  separators, empty pieces included; a string without the separator is the only piece.
\<close>

fun str_split :: "char \<Rightarrow> string \<Rightarrow> string list" where
  "str_split sep [] = [[]]"
| "str_split sep (ch # rest) =
     (if ch = sep then [] # str_split sep rest
      else (case str_split sep rest of
              piece # pieces \<Rightarrow> (ch # piece) # pieces
            | [] \<Rightarrow> [[ch]]))"

text \<open>\<^verbatim>\<open>xs[i]\<close> for an index that is not negative.\<close>

definition getitem :: "'a list \<Rightarrow> nat \<Rightarrow> error + 'a" where
  "getitem xs i = (if i < length xs then Inr (xs ! i) else Inl IndexError)"

text \<open>
  \<^verbatim>\<open>{"Name": f"tag:{tag.split(':')[0]}", "Values": [tag.split(':')[1]]}\<close>, and the
  list comprehension \<^verbatim>\<open>[... for tag in tags]\<close> around it, which raises at the first
  tag for which the element raises.
\<close>

definition tag_filter :: "string \<Rightarrow> error + FilterTypeDef" where
  "tag_filter tag =
     (case getitem (str_split CHR '':'' tag) 0 of
        Inl e \<Rightarrow> Inl e
      | Inr k \<Rightarrow>
          (case getitem (str_split CHR '':'' tag) 1 of
             Inl e \<Rightarrow> Inl e
           | Inr v \<Rightarrow> Inr \<lparr>Name = ''tag:'' @ k, Values = [v]\<rparr>))"

fun tag_filters :: "string list \<Rightarrow> error + FilterTypeDef list" where
  "tag_filters [] = Inr []"
| "tag_filters (tag # tags) =
     (case tag_filter tag of
        Inl e \<Rightarrow> Inl e
      | Inr f \<Rightarrow>
          (case tag_filters tags of
             Inl e \<Rightarrow> Inl e
           | Inr fs \<Rightarrow> Inr (f # fs)))"

text \<open>The requests of the locator and of \<^verbatim>\<open>auth\<close>.\<close>

definition describe_instances_ids :: "conn \<Rightarrow> string list \<Rightarrow> (api_error + reservation list option) \<times> conn" where
  "describe_instances_ids c ids = (instances_by_id c ids, c\<lparr>trace := trace c @ [DescribeInstances]\<rparr>)"

definition describe_instances :: "conn \<Rightarrow> FilterTypeDef list \<Rightarrow> (api_error + reservation list option) \<times> conn" where
  "describe_instances c fs = (instances_by_filters c fs, c\<lparr>trace := trace c @ [DescribeInstances]\<rparr>)"

definition describe_volumes :: "conn \<Rightarrow> FilterTypeDef list \<Rightarrow> (api_error + volume list option) \<times> conn" where
  "describe_volumes c fs = (volumes_by_filters c fs, c\<lparr>trace := trace c @ [DescribeVolumes]\<rparr>)"

definition describe_key_pairs :: "conn \<Rightarrow> (api_error + string list) \<times> conn" where
  "describe_key_pairs c = (key_pairs c, c\<lparr>trace := trace c @ [DescribeKeyPairs]\<rparr>)"

text \<open>\<^verbatim>\<open>d.get(key, [])\<close>\<close>

definition get_or_empty :: "'a list option \<Rightarrow> 'a list" where
  "get_or_empty v = (case v of None \<Rightarrow> [] | Some xs \<Rightarrow> xs)"

text \<open>
  The three nested loops of \<^verbatim>\<open>find_instance_by_id\<close> and
  \<^verbatim>\<open>find_instances_by_tags\<close>, and the loop of \<^verbatim>\<open>find_volumes_by_tags\<close>; each
  carries the list \<^verbatim>\<open>volumes\<close> and appends to it.
\<close>

fun for_mappings :: "block_device_mapping list \<Rightarrow> string list \<Rightarrow> string list" where
  "for_mappings [] volumes = volumes"
| "for_mappings (vol # rest) volumes = for_mappings rest (volumes @ [Ebs_VolumeId (Ebs vol)])"

fun for_instances :: "ec2_instance list \<Rightarrow> string list \<Rightarrow> string list" where
  "for_instances [] volumes = volumes"
| "for_instances (inst # rest) volumes =
     for_instances rest (for_mappings (BlockDeviceMappings inst) volumes)"

fun for_reservations :: "reservation list \<Rightarrow> string list \<Rightarrow> string list" where
  "for_reservations [] volumes = volumes"
| "for_reservations (reservation # rest) volumes =
     for_reservations rest (for_instances (Instances reservation) volumes)"

fun for_vol :: "volume list \<Rightarrow> string list \<Rightarrow> string list" where
  "for_vol [] volumes = volumes"
| "for_vol (v # rest) volumes = for_vol rest (volumes @ [Volume_VolumeId v])"

definition find_instance_by_id :: "conn \<Rightarrow> string \<Rightarrow> (error + string list) \<times> conn" where
  "find_instance_by_id c instance_id =
     (case describe_instances_ids c [instance_id] of
        (Inl e, c1) \<Rightarrow> (Inl (ApiError e), c1)
      | (Inr reservations, c1) \<Rightarrow> (Inr (for_reservations (get_or_empty reservations) []), c1))"

definition find_volumes_by_tags :: "conn \<Rightarrow> string list \<Rightarrow> (error + string list) \<times> conn" where
  "find_volumes_by_tags c tags =
     (case tag_filters tags of
        Inl e \<Rightarrow> (Inl e, c)
      | Inr filters \<Rightarrow>
          (case describe_volumes c filters of
             (Inl e, c1) \<Rightarrow> (Inl (ApiError e), c1)
           | (Inr vol, c1) \<Rightarrow> (Inr (for_vol (get_or_empty vol) []), c1)))"

definition find_instances_by_tags :: "conn \<Rightarrow> string list \<Rightarrow> (error + string list) \<times> conn" where
  "find_instances_by_tags c tags =
     (case tag_filters tags of
        Inl e \<Rightarrow> (Inl e, c)
      | Inr fs \<Rightarrow>
          (case describe_instances c
                  (\<lparr>Name = ''instance-state-name'', Values = [''running'', ''stopped'']\<rparr> # fs) of
             (Inl e, c1) \<Rightarrow> (Inl (ApiError e), c1)
           | (Inr reservations, c1) \<Rightarrow> (Inr (for_reservations (get_or_empty reservations) []), c1)))"

section \<open>Authentication\<close>

definition default_region :: "string list" where
  "default_region = [''us-east-2'', ''eu-west-2'', ''ap-northeast-1'', ''us-west-1'', ''cloudgouv-eu-west-1'']"

text \<open>
  \<^verbatim>\<open>not endpoint\<close> holds for \<^verbatim>\<open>None\<close> and for the empty string;
  \<^verbatim>\<open>region in default_region\<close> is false for \<^verbatim>\<open>None\<close>; an f-string prints
  \<^verbatim>\<open>None\<close> as \<^verbatim>\<open>'None'\<close>.
\<close>

definition truthy :: "string option \<Rightarrow> bool" where
  "truthy s = (case s of None \<Rightarrow> False | Some x \<Rightarrow> x \<noteq> [])"

definition region_in :: "string option \<Rightarrow> string list \<Rightarrow> bool" where
  "region_in region rs = (case region of None \<Rightarrow> False | Some r \<Rightarrow> r \<in> set rs)"

definition format_str :: "string option \<Rightarrow> string" where
  "format_str s = (case s of None \<Rightarrow> ''None'' | Some x \<Rightarrow> x)"

text \<open>
  \<^verbatim>\<open>boto3.Session(profile_name=profile)\<close> and
  \<^verbatim>\<open>session.client("ec2", region_name=region, endpoint_url=endpoint, config=...)\<close>.
  Neither sends a request, and either can raise. A session is held as its profile; the
  configuration of the client is the client certificate, or \<^verbatim>\<open>None\<close>.
\<close>

definition boto3_Session :: "conn \<Rightarrow> string option \<Rightarrow> api_error + string option" where
  "boto3_Session c profile =
     (case session_fault c profile of Some e \<Rightarrow> Inl e | None \<Rightarrow> Inr profile)"

definition session_client :: "conn \<Rightarrow> string option \<Rightarrow> string option \<Rightarrow> string option \<Rightarrow> string option \<Rightarrow> api_error + unit" where
  "session_client c session region endpoint_url config =
     (case client_fault c session region endpoint_url config of Some e \<Rightarrow> Inl e | None \<Rightarrow> Inr ())"

text \<open>
  \<^verbatim>\<open>auth\<close>. The result is the endpoint that the client is created for. The first
  request is \<^verbatim>\<open>describe_key_pairs\<close>, sent once the session and the client exist.
\<close>

definition auth :: "conn \<Rightarrow> string option \<Rightarrow> string option \<Rightarrow> string option \<Rightarrow> string option \<Rightarrow> (error + string option) \<times> conn" where
  "auth c profile region client_cert endpoint =
     (case (if \<not> truthy endpoint \<and> region_in region default_region
            then Inr (Some (''https://fcu.'' @ format_str region @ ''.outscale.com''))
            else if \<not> truthy endpoint \<and> \<not> region_in region default_region
            then Inl InputError
            else Inr endpoint) of
        Inl e \<Rightarrow> (Inl e, c)
      | Inr endpoint_url \<Rightarrow>
          (case boto3_Session c profile of
             Inl e \<Rightarrow> (Inl (ApiError e), c)
           | Inr session \<Rightarrow>
               (case session_client c session region endpoint_url
                       (if truthy client_cert then client_cert else None) of
                  Inl e \<Rightarrow> (Inl (ApiError e), c)
                | Inr u \<Rightarrow>
                    (case describe_key_pairs c of
                       (Inl e, c1) \<Rightarrow> (Inl (ApiError e), c1)
                     | (Inr pairs, c1) \<Rightarrow>
                         (case getitem pairs 0 of
                            Inl e \<Rightarrow> (Inl e, c1)
                          | Inr pair \<Rightarrow> (Inr endpoint_url, c1))))))"

section \<open>Observations on a run\<close>

text \<open>
  What the theorems below read off a connection: the snapshot identifiers for which a
  deletion was requested, oldest request first, and the exceptions logged at error level.
\<close>

fun delete_requests :: "event list \<Rightarrow> string list" where
  "delete_requests [] = []"
| "delete_requests (DeleteSnapshot sid # es) = sid # delete_requests es"
| "delete_requests (e # es) = delete_requests es"

fun logged_errors :: "event list \<Rightarrow> api_error list" where
  "logged_errors [] = []"
| "logged_errors (LogError e # es) = e # logged_errors es"
| "logged_errors (e # es) = logged_errors es"

definition in_use :: "api_error \<Rightarrow> bool" where
  "in_use e = (e = ClientError ''InvalidSnapshot.InUse'')"

text \<open>
  \<open>tolerated c snap\<close>: the deletion of \<open>snap\<close> either succeeds or fails with the
  in-use client error.
\<close>

definition tolerated :: "conn \<Rightarrow> snapshot \<Rightarrow> bool" where
  "tolerated c snap =
     (case delete_fault c (SnapshotId snap) of None \<Rightarrow> True | Some e \<Rightarrow> in_use e)"


text \<open>
  The deletions of a list of marked snapshots in order, as both rotation loops perform
  them on the snapshots that pass their test. It is used to state and prove what the two
  loops have in common.
\<close>

fun delete_marked :: "snapshot list \<Rightarrow> conn \<Rightarrow> (error + unit) \<times> conn" where
  "delete_marked [] c = (Inr (), c)"
| "delete_marked (snap # rest) c =
     (case try_delete c snap of
        (Inl e, c1) \<Rightarrow> (Inl e, c1)
      | (Inr u, c1) \<Rightarrow> delete_marked rest c1)"

text \<open>
  \<open>fetched c vol rotate_only\<close>: the snapshots that \<^verbatim>\<open>describe_snapshots\<close>
  returns for the filters of a rotation of \<open>vol\<close>.
  \<open>new_requests c c'\<close>: the deletions requested between the connection states
  \<open>c\<close> and \<open>c'\<close>.
\<close>

definition fetched :: "conn \<Rightarrow> string \<Rightarrow> bool \<Rightarrow> snapshot list" where
  "fetched c vol rotate_only = fst (describe_snapshots c (rotate_filters vol rotate_only))"

definition new_requests :: "conn \<Rightarrow> conn \<Rightarrow> string list" where
  "new_requests c c' = drop (length (delete_requests (trace c))) (delete_requests (trace c'))"


text \<open>
  \<open>aged_snapshots rot clk t snaps\<close>: the snapshots of \<open>snaps\<close> that pass the test of
  \<^verbatim>\<open>rotate_days_snapshots\<close>, when the clock is read for the first of them at
  reading number \<open>t\<close>, for the next at \<open>t + 1\<close>, and so on.
\<close>

definition aged_snapshots :: "int \<Rightarrow> (nat \<Rightarrow> int) \<Rightarrow> nat \<Rightarrow> snapshot list \<Rightarrow> snapshot list" where
  "aged_snapshots rot clk t snaps =
     map snd (filter (\<lambda>(n, s). rot \<le> timedelta_days (clk n - StartTime s)) (enumerate t snaps))"

text \<open>
  \<open>count_marked\<close> and \<open>age_marked\<close>: the snapshots of a volume that the two rotations
  mark, written with the list functions of the library: the positions \<open>rot\<close> and later
  of the sorted list when at least \<open>rot\<close> snapshots were fetched, and the fetched
  snapshots that are old enough.
\<close>

definition count_marked :: "int \<Rightarrow> bool \<Rightarrow> conn \<Rightarrow> string \<Rightarrow> snapshot list" where
  "count_marked rot rotate_only c vol =
     (if rot \<le> int (length (fetched c vol rotate_only))
      then drop (nat rot) (sort_reverse (fetched c vol rotate_only))
      else [])"

definition age_marked :: "int \<Rightarrow> bool \<Rightarrow> conn \<Rightarrow> string \<Rightarrow> snapshot list" where
  "age_marked rot rotate_only c vol =
     aged_snapshots rot (clock c) (ticks c) (fetched c vol rotate_only)"

text \<open>
  The key and the value that \<open>tag_filter\<close> takes from a tag, written with the list
  functions of the library: the text before the first colon, and the text between the
  first colon and the next one (or the end).
\<close>

definition tag_key :: "string \<Rightarrow> string" where
  "tag_key tag = takeWhile (\<lambda>ch. ch \<noteq> CHR '':'') tag"

definition tag_value :: "string \<Rightarrow> string" where
  "tag_value tag = takeWhile (\<lambda>ch. ch \<noteq> CHR '':'') (tl (dropWhile (\<lambda>ch. ch \<noteq> CHR '':'') tag))"

text \<open>
  The volume identifiers of a response of \<^verbatim>\<open>describe_instances\<close>, in the order of
  the response.
\<close>

definition response_volumes :: "reservation list \<Rightarrow> string list" where
  "response_volumes rs =
     map (\<lambda>vol. Ebs_VolumeId (Ebs vol)) (concat (map BlockDeviceMappings (concat (map Instances rs))))"

section \<open>Sample accounts\<close>

text \<open>
  A sample account, used to run the model on concrete inputs: volume \<open>v1\<close> has four
  snapshots, two of them of equal time, volume \<open>v2\<close> has two. Deleting \<open>s3\<close>
  fails because the snapshot is in use, deleting \<open>s5\<close> fails with another client
  error. The clock stands at ten days and advances by one second per reading. There is no
  profile \<open>missing\<close>, and no region is configured outside the arguments of a call.
\<close>

definition sample_snapshots :: "snapshot list" where
  "sample_snapshots =
     [\<lparr>SnapshotId = ''s1'', VolumeId = ''v1'', StartTime = 100, Description = ''osc-bsu-backup 0.1''\<rparr>,
      \<lparr>SnapshotId = ''s2'', VolumeId = ''v1'', StartTime = 300, Description = ''manual''\<rparr>,
      \<lparr>SnapshotId = ''s3'', VolumeId = ''v1'', StartTime = 200, Description = ''osc-bsu-backup 0.0.2''\<rparr>,
      \<lparr>SnapshotId = ''s4'', VolumeId = ''v1'', StartTime = 300, Description = ''osc-bsu-backup 0.1''\<rparr>,
      \<lparr>SnapshotId = ''s5'', VolumeId = ''v2'', StartTime = 100, Description = ''osc-bsu-backup 0.1''\<rparr>,
      \<lparr>SnapshotId = ''s6'', VolumeId = ''v2'', StartTime = 50, Description = ''osc-bsu-backup 0.1''\<rparr>]"

definition sample_conn :: conn where
  "sample_conn =
     \<lparr>session_fault = (\<lambda>profile. if profile = Some ''missing''
                                 then Some (OtherError ''ProfileNotFound'') else None),
      client_fault = (\<lambda>session region endpoint_url config.
                        if region = None then Some (OtherError ''NoRegionError'') else None),
      key_pairs = Inr [''key''],
      instances_by_id = (\<lambda>ids. Inr (Some [])),
      instances_by_filters = (\<lambda>fs. Inr (Some [])),
      volumes_by_filters = (\<lambda>fs. Inr (Some [])),
      snapshots = sample_snapshots,
      delete_fault = (\<lambda>sid. if sid = ''s3'' then Some (ClientError ''InvalidSnapshot.InUse'')
                              else if sid = ''s5'' then Some (ClientError ''InternalError'')
                              else None),
      clock = (\<lambda>n. 864000000000 + 1000000 * int n),
      ticks = 0,
      trace = []\<rparr>"

text \<open>
  The sample account with a single snapshot whose \<open>StartTime\<close>, set by the service,
  is five seconds ahead of the local clock.
\<close>

definition skewed_conn :: conn where
  "skewed_conn = sample_conn\<lparr>snapshots :=
     [\<lparr>SnapshotId = ''s7'', VolumeId = ''v3'', StartTime = 864000000000 + 5000000,
       Description = ''osc-bsu-backup 0.1''\<rparr>]\<rparr>"

text \<open>The sample account when the only deletion that fails is the one of \<open>s3\<close>, in use.\<close>

definition in_use_conn :: conn where
  "in_use_conn = sample_conn\<lparr>delete_fault :=
     (\<lambda>sid. if sid = ''s3'' then Some (ClientError ''InvalidSnapshot.InUse'') else None)\<rparr>"

text \<open>
  The sample account when the service lists the volume \<open>v1\<close> under two instances that
  match the tags.
\<close>

definition shared_volume_conn :: conn where
  "shared_volume_conn = sample_conn\<lparr>instances_by_filters := (\<lambda>fs. Inr (Some
     [\<lparr>Instances =
         [\<lparr>InstanceId = ''i1'', BlockDeviceMappings = [\<lparr>Ebs = \<lparr>Ebs_VolumeId = ''v1''\<rparr>\<rparr>]\<rparr>,
          \<lparr>InstanceId = ''i2'', BlockDeviceMappings = [\<lparr>Ebs = \<lparr>Ebs_VolumeId = ''v1''\<rparr>\<rparr>]\<rparr>]\<rparr>]))\<rparr>"

text \<open>The sample account without a key pair.\<close>

definition no_key_conn :: conn where
  "no_key_conn = sample_conn\<lparr>key_pairs := Inr []\<rparr>"

section \<open>Lemmas on the deletion of marked snapshots\<close>

lemma delete_requests_append: "delete_requests (xs @ ys) = delete_requests xs @ delete_requests ys"
  by (induction xs rule: delete_requests.induct) simp_all

lemma logged_errors_append: "logged_errors (xs @ ys) = logged_errors xs @ logged_errors ys"
  by (induction xs rule: logged_errors.induct) simp_all

lemma try_delete_cases:
  "try_delete c snap =
     (case delete_fault c (SnapshotId snap) of
        None \<Rightarrow> (Inr (), c\<lparr>trace := trace c @ [DeleteSnapshot (SnapshotId snap)],
                          snapshots := filter (\<lambda>s. SnapshotId s \<noteq> SnapshotId snap) (snapshots c)\<rparr>)
      | Some e \<Rightarrow>
          if in_use e
          then (Inr (), c\<lparr>trace := trace c @ [DeleteSnapshot (SnapshotId snap), LogError e]\<rparr>)
          else (Inl (ApiError e), c\<lparr>trace := trace c @ [DeleteSnapshot (SnapshotId snap)]\<rparr>))"
  by (auto simp: try_delete_def delete_snapshot_def logger_error_def in_use_def Let_def
      split: option.splits api_error.splits)

lemma rotate_enumerate_marked:
  "rotate_enumerate rot i snaps c = delete_marked (drop (nat rot - i) snaps) c"
proof (induction snaps arbitrary: i c)
  case Nil
  then show ?case by simp
next
  case (Cons snap rest)
  show ?case
  proof (cases "rot \<le> int i")
    case True
    then have "nat rot - i = 0" "nat rot - Suc i = 0" by simp_all
    with True Cons show ?thesis by (simp split: prod.splits sum.splits)
  next
    case False
    then have "nat rot - i = Suc (nat rot - Suc i)" by simp
    with False Cons show ?thesis by simp
  qed
qed


lemma try_delete_frame:
  "delete_fault (snd (try_delete c snap)) = delete_fault c"
  "clock (snd (try_delete c snap)) = clock c"
  "ticks (snd (try_delete c snap)) = ticks c"
  by (simp_all add: try_delete_cases split: option.splits)


lemma tolerated_frame: "delete_fault c1 = delete_fault c \<Longrightarrow> tolerated c1 = tolerated c"
  by (rule ext) (simp add: tolerated_def)

lemma try_delete_tolerated:
  assumes "tolerated c m"
  shows "fst (try_delete c m) = Inr ()"
    and "delete_requests (trace (snd (try_delete c m))) = delete_requests (trace c) @ [SnapshotId m]"
    and "snapshots (snd (try_delete c m)) =
           filter (\<lambda>s. \<not> (SnapshotId s = SnapshotId m \<and> delete_fault c (SnapshotId s) = None)) (snapshots c)"
    and "logged_errors (trace (snd (try_delete c m))) =
           logged_errors (trace c) @ (case delete_fault c (SnapshotId m) of None \<Rightarrow> [] | Some e \<Rightarrow> [e])"
  using assms
  by (auto simp: try_delete_cases tolerated_def delete_requests_append logged_errors_append
      split: option.splits intro: filter_cong)

lemma delete_marked_tolerated:
  assumes "\<forall>m \<in> set ms. tolerated c m"
  shows "fst (delete_marked ms c) = Inr () \<and>
         delete_requests (trace (snd (delete_marked ms c))) =
           delete_requests (trace c) @ map SnapshotId ms \<and>
         snapshots (snd (delete_marked ms c)) =
           filter (\<lambda>s. \<not> (SnapshotId s \<in> SnapshotId ` set ms \<and> delete_fault c (SnapshotId s) = None))
             (snapshots c) \<and>
         logged_errors (trace (snd (delete_marked ms c))) =
           logged_errors (trace c) @
           concat (map (\<lambda>m. case delete_fault c (SnapshotId m) of None \<Rightarrow> [] | Some e \<Rightarrow> [e]) ms)"
  using assms
proof (induction ms arbitrary: c)
  case Nil
  show ?case by simp
next
  case (Cons m ms)
  obtain r c1 where t: "try_delete c m = (r, c1)" by (cases "try_delete c m")
  have tm: "tolerated c m" using Cons.prems by simp
  have r: "r = Inr ()" using try_delete_tolerated(1) [OF tm] t by simp
  have fr: "delete_fault c1 = delete_fault c" using try_delete_frame(1) [of c m] t by simp
  have "\<forall>x \<in> set ms. tolerated c1 x" using Cons.prems tolerated_frame [OF fr] by simp
  from Cons.IH [OF this] have ih:
    "fst (delete_marked ms c1) = Inr ()"
    "delete_requests (trace (snd (delete_marked ms c1))) = delete_requests (trace c1) @ map SnapshotId ms"
    "snapshots (snd (delete_marked ms c1)) =
       filter (\<lambda>s. \<not> (SnapshotId s \<in> SnapshotId ` set ms \<and> delete_fault c1 (SnapshotId s) = None)) (snapshots c1)"
    "logged_errors (trace (snd (delete_marked ms c1))) =
           logged_errors (trace c1) @
           concat (map (\<lambda>m. case delete_fault c1 (SnapshotId m) of None \<Rightarrow> [] | Some e \<Rightarrow> [e]) ms)"
    by simp_all
  have dm: "delete_marked (m # ms) c = delete_marked ms c1" using t r by simp
  have c1: "delete_requests (trace c1) = delete_requests (trace c) @ [SnapshotId m]"
    "snapshots c1 = filter (\<lambda>s. \<not> (SnapshotId s = SnapshotId m \<and> delete_fault c (SnapshotId s) = None)) (snapshots c)"
    "logged_errors (trace c1) =
           logged_errors (trace c) @ (case delete_fault c (SnapshotId m) of None \<Rightarrow> [] | Some e \<Rightarrow> [e])"
    using try_delete_tolerated(2,3,4) [OF tm] t by simp_all
  have s: "snapshots (snd (delete_marked ms c1)) =
     filter (\<lambda>s. \<not> (SnapshotId s \<in> SnapshotId ` set (m # ms) \<and> delete_fault c (SnapshotId s) = None)) (snapshots c)"
    unfolding ih(3) c1(2) fr by (auto intro: filter_cong)
  show ?case unfolding dm using ih(1) ih(2) ih(4) c1(1) c1(3) s fr by simp
qed

lemma delete_marked_prefix:
  "\<exists>k \<le> length ms. delete_requests (trace (snd (delete_marked ms c))) =
     delete_requests (trace c) @ map SnapshotId (take k ms)"
proof (induction ms arbitrary: c)
  case Nil
  show ?case by simp
next
  case (Cons m ms)
  obtain r c1 where t: "try_delete c m = (r, c1)" by (cases "try_delete c m")
  have c1: "delete_requests (trace c1) = delete_requests (trace c) @ [SnapshotId m]"
    using t by (auto simp: try_delete_cases delete_requests_append split: option.splits if_splits)
  show ?case
  proof (cases r)
    case (Inl e)
    with t c1 have "delete_requests (trace (snd (delete_marked (m # ms) c))) =
       delete_requests (trace c) @ map SnapshotId (take 1 (m # ms))" by simp
    then show ?thesis by (intro exI [of _ 1]) simp
  next
    case (Inr u)
    from Cons [of c1] obtain k where k: "k \<le> length ms"
      "delete_requests (trace (snd (delete_marked ms c1))) = delete_requests (trace c1) @ map SnapshotId (take k ms)"
      by blast
    with t c1 Inr have "delete_requests (trace (snd (delete_marked (m # ms) c))) =
       delete_requests (trace c) @ map SnapshotId (take (Suc k) (m # ms))" by simp
    with k(1) show ?thesis by (intro exI [of _ "Suc k"]) simp
  qed
qed

lemma delete_marked_ok_iff:
  "fst (delete_marked ms c) = Inr () \<longleftrightarrow> (\<forall>m \<in> set ms. tolerated c m)"
proof (induction ms arbitrary: c)
  case Nil
  show ?case by simp
next
  case (Cons m ms)
  obtain r c1 where t: "try_delete c m = (r, c1)" by (cases "try_delete c m")
  have fr: "delete_fault c1 = delete_fault c" using try_delete_frame(1) [of c m] t by simp
  have rt: "(\<exists>u. r = Inr u) \<longleftrightarrow> tolerated c m"
    using t by (auto simp: try_delete_cases tolerated_def split: option.splits if_splits)
  show ?case
  proof (cases r)
    case (Inl e)
    with t rt show ?thesis by auto
  next
    case (Inr u)
    with t rt Cons [of c1] tolerated_frame [OF fr] show ?thesis by simp
  qed
qed

section \<open>The count-based rotation\<close>

lemma describe_snapshots_frame:
  "snapshots (snd (describe_snapshots c fs)) = snapshots c"
  "delete_fault (snd (describe_snapshots c fs)) = delete_fault c"
  "clock (snd (describe_snapshots c fs)) = clock c"
  "ticks (snd (describe_snapshots c fs)) = ticks c"
  "delete_requests (trace (snd (describe_snapshots c fs))) = delete_requests (trace c)"
  "logged_errors (trace (snd (describe_snapshots c fs))) = logged_errors (trace c)"
  by (simp_all add: describe_snapshots_def delete_requests_append logged_errors_append)

lemma rotate_snapshots_vol_marked:
  "rotate_snapshots_vol rot rotate_only c vol =
     (if rot \<le> int (length (fetched c vol rotate_only))
      then delete_marked (drop (nat rot) (sort_reverse (fetched c vol rotate_only)))
             (snd (describe_snapshots c (rotate_filters vol rotate_only)))
      else (Inr (), snd (describe_snapshots c (rotate_filters vol rotate_only))))"
  by (simp add: rotate_snapshots_vol_def fetched_def rotate_enumerate_marked split: prod.splits)

lemma sort_reverse_sorted: "sorted_wrt (\<lambda>a b. StartTime b \<le> StartTime a) (sort_reverse snaps)"
proof -
  have "sorted (map (\<lambda>x. - StartTime x) (sort_reverse snaps))"
    unfolding sort_reverse_def by (rule sorted_sort_key)
  then show ?thesis by (simp add: sorted_map)
qed

lemma sort_reverse_stable:
  "filter (\<lambda>s. StartTime s = t) (sort_reverse snaps) = filter (\<lambda>s. StartTime s = t) snaps"
proof -
  have "filter (\<lambda>s. - StartTime s = - t) (sort_reverse snaps) = filter (\<lambda>s. - StartTime s = - t) snaps"
    unfolding sort_reverse_def by (rule sort_key_stable)
  then show ?thesis by simp
qed

lemma sort_reverse_mset: "mset (sort_reverse snaps) = mset snaps"
  by (simp add: sort_reverse_def)




lemma delete_marked_new_requests_prefix:
  "prefix (drop (length (delete_requests (trace c))) (delete_requests (trace (snd (delete_marked ms c)))))
     (map SnapshotId ms)"
proof -
  obtain k where "delete_requests (trace (snd (delete_marked ms c))) =
     delete_requests (trace c) @ map SnapshotId (take k ms)"
    using delete_marked_prefix [of ms c] by blast
  then show ?thesis by (simp add: take_map [symmetric] take_is_prefix del: take_map)
qed

lemma tolerated_describe:
  "tolerated (snd (describe_snapshots c fs)) = tolerated c"
  by (rule tolerated_frame) (simp add: describe_snapshots_frame)

text \<open>
  The rule of the count-based rotation for one run of the loop body, from any state of the
  connection.
\<close>

lemma count_body_selection:
  assumes "rot \<le> int (length (fetched c vol rotate_only))"
  shows "let snaps = fetched c vol rotate_only;
             sorted_snaps = sort_reverse snaps;
             marked = drop (nat rot) sorted_snaps;
             r = rotate_snapshots_vol rot rotate_only c vol
         in sorted_wrt (\<lambda>a b. StartTime b \<le> StartTime a) sorted_snaps \<and>
            mset sorted_snaps = mset snaps \<and>
            (\<forall>t. filter (\<lambda>s. StartTime s = t) sorted_snaps = filter (\<lambda>s. StartTime s = t) snaps) \<and>
            prefix (new_requests c (snd r)) (map SnapshotId marked) \<and>
            (list_all (tolerated c) marked \<longrightarrow>
               fst r = Inr () \<and> new_requests c (snd r) = map SnapshotId marked)"
proof -
  define snaps where "snaps = fetched c vol rotate_only"
  define marked where "marked = drop (nat rot) (sort_reverse snaps)"
  define c1 where "c1 = snd (describe_snapshots c (rotate_filters vol rotate_only))"
  have r: "rotate_snapshots_vol rot rotate_only c vol = delete_marked marked c1"
    using assms by (simp add: rotate_snapshots_vol_marked snaps_def marked_def c1_def)
  have tr: "delete_requests (trace c1) = delete_requests (trace c)"
    by (simp add: c1_def describe_snapshots_frame)
  have p: "prefix (new_requests c (snd (delete_marked marked c1))) (map SnapshotId marked)"
    using delete_marked_new_requests_prefix [of c1 marked] by (simp add: new_requests_def tr)
  have t: "fst (delete_marked marked c1) = Inr () \<and>
           new_requests c (snd (delete_marked marked c1)) = map SnapshotId marked"
    if "list_all (tolerated c) marked"
  proof -
    have "\<forall>m \<in> set marked. tolerated c1 m"
      using that by (simp add: c1_def tolerated_describe list_all_iff)
    from delete_marked_tolerated [OF this] show ?thesis
      by (simp add: new_requests_def tr)
  qed
  show ?thesis
    unfolding Let_def snaps_def [symmetric] marked_def [symmetric] r
    using sort_reverse_sorted [of snaps] sort_reverse_mset [of snaps]
      sort_reverse_stable [of _ snaps] p t
    by blast
qed

section \<open>The age-based rotation\<close>

lemma timedelta_days_ge: "(rot \<le> timedelta_days d) = (rot * 86400000000 \<le> d)"
proof -
  define q where "q = d div 86400000000"
  define m where "m = d mod 86400000000"
  have "d = 86400000000 * q + m" "0 \<le> m" "m < 86400000000"
    by (simp_all add: q_def m_def)
  then have "(rot \<le> q) = (rot * 86400000000 \<le> d)" by linarith
  then show ?thesis by (simp add: timedelta_days_def q_def)
qed

lemma aged_snapshots_Nil: "aged_snapshots rot clk t [] = []"
  by (simp add: aged_snapshots_def)

lemma aged_snapshots_Cons:
  "aged_snapshots rot clk t (s # rest) =
     (if rot \<le> timedelta_days (clk t - StartTime s) then [s] else []) @
     aged_snapshots rot clk (Suc t) rest"
  by (simp add: aged_snapshots_def enumerate_simps)

lemma try_delete_ticks:
  "try_delete (c\<lparr>ticks := n\<rparr>) s = (fst (try_delete c s), (snd (try_delete c s))\<lparr>ticks := n\<rparr>)"
  by (simp add: try_delete_cases split: option.splits)

lemma delete_marked_ticks:
  "delete_marked ms (c\<lparr>ticks := n\<rparr>) =
     (fst (delete_marked ms c), (snd (delete_marked ms c))\<lparr>ticks := n\<rparr>)"
proof (induction ms arbitrary: c)
  case Nil
  show ?case by simp
next
  case (Cons m ms)
  obtain r c1 where t: "try_delete c m = (r, c1)" by (cases "try_delete c m")
  then have t': "try_delete (c\<lparr>ticks := n\<rparr>) m = (r, c1\<lparr>ticks := n\<rparr>)"
    by (simp add: try_delete_ticks)
  show ?case
  proof (cases r)
    case (Inl e)
    with t t' show ?thesis by simp
  next
    case (Inr u)
    with t t' Cons [of c1] show ?thesis by simp
  qed
qed

lemma rotate_days_for_marked:
  "\<exists>n. rotate_days_for rot snaps c =
     (fst (delete_marked (aged_snapshots rot (clock c) (ticks c) snaps) c),
      (snd (delete_marked (aged_snapshots rot (clock c) (ticks c) snaps) c))\<lparr>ticks := n\<rparr>)"
proof (induction snaps arbitrary: c)
  case Nil
  have "c = c\<lparr>ticks := ticks c\<rparr>" by simp
  then show ?case by (auto simp: aged_snapshots_Nil intro: exI [of _ "ticks c"])
next
  case (Cons s rest)
  define c0 where "c0 = c\<lparr>ticks := Suc (ticks c)\<rparr>"
  define M where "M = aged_snapshots rot (clock c) (Suc (ticks c)) rest"
  have now: "datetime_now c = (clock c (ticks c), c0)"
    by (simp add: datetime_now_def c0_def)
  show ?case
  proof (cases "rot \<le> timedelta_days (clock c (ticks c) - StartTime s)")
    case False
    from Cons [of c0] obtain n where
      "rotate_days_for rot rest c0 = (fst (delete_marked M c0), (snd (delete_marked M c0))\<lparr>ticks := n\<rparr>)"
      by (auto simp: c0_def M_def)
    then have "rotate_days_for rot rest c0 = (fst (delete_marked M c), (snd (delete_marked M c))\<lparr>ticks := n\<rparr>)"
      by (simp add: c0_def delete_marked_ticks)
    with False now show ?thesis
      by (auto simp: aged_snapshots_Cons M_def)
  next
    case True
    obtain r c1 where t: "try_delete c s = (r, c1)" by (cases "try_delete c s")
    then have t0: "try_delete c0 s = (r, c1\<lparr>ticks := Suc (ticks c)\<rparr>)"
      by (simp add: c0_def try_delete_ticks)
    have fr: "clock c1 = clock c" using try_delete_frame(2) [of c s] t by simp
    show ?thesis
    proof (cases r)
      case (Inl e)
      with True now t t0 show ?thesis
        by (auto simp: aged_snapshots_Cons)
    next
      case (Inr u)
      from Cons [of "c1\<lparr>ticks := Suc (ticks c)\<rparr>"] fr obtain n where
        "rotate_days_for rot rest (c1\<lparr>ticks := Suc (ticks c)\<rparr>) =
           (fst (delete_marked M (c1\<lparr>ticks := Suc (ticks c)\<rparr>)),
            (snd (delete_marked M (c1\<lparr>ticks := Suc (ticks c)\<rparr>)))\<lparr>ticks := n\<rparr>)"
        by (auto simp: M_def)
      then have "rotate_days_for rot rest (c1\<lparr>ticks := Suc (ticks c)\<rparr>) =
           (fst (delete_marked M c1), (snd (delete_marked M c1))\<lparr>ticks := n\<rparr>)"
        by (simp add: delete_marked_ticks)
      with True now t t0 Inr show ?thesis
        by (auto simp: aged_snapshots_Cons M_def)
    qed
  qed
qed


lemma rotate_days_snapshots_vol_marked:
  "\<exists>n. rotate_days_snapshots_vol rot rotate_only c vol =
     (fst (delete_marked (aged_snapshots rot (clock c) (ticks c) (fetched c vol rotate_only))
             (snd (describe_snapshots c (rotate_filters vol rotate_only)))),
      (snd (delete_marked (aged_snapshots rot (clock c) (ticks c) (fetched c vol rotate_only))
             (snd (describe_snapshots c (rotate_filters vol rotate_only)))))\<lparr>ticks := n\<rparr>)"
  using rotate_days_for_marked [of rot "fetched c vol rotate_only"
      "snd (describe_snapshots c (rotate_filters vol rotate_only))"]
  by (simp add: rotate_days_snapshots_vol_def fetched_def describe_snapshots_frame case_prod_unfold)

lemma aged_snapshots_all:
  assumes "rot \<le> 0" and "list_all (\<lambda>(n, s). StartTime s \<le> clk n) (enumerate t snaps)"
  shows "aged_snapshots rot clk t snaps = snaps"
proof -
  have "rot \<le> timedelta_days (clk n - StartTime s)" if "(n, s) \<in> set (enumerate t snaps)" for n s
  proof -
    have "StartTime s \<le> clk n" using assms(2) that by (auto simp: list_all_iff)
    with assms(1) have "rot * 86400000000 \<le> clk n - StartTime s" by linarith
    then show ?thesis by (simp add: timedelta_days_ge)
  qed
  then have "filter (\<lambda>(n, s). rot \<le> timedelta_days (clk n - StartTime s)) (enumerate t snaps) =
             enumerate t snaps"
    by (auto intro: filter_True)
  then show ?thesis by (simp add: aged_snapshots_def)
qed

text \<open>
  The rule of the age-based rotation for one run of the loop body, from any state of the
  connection.
\<close>

lemma age_body_selection:
  "let snaps = fetched c vol rotate_only;
       marked = aged_snapshots rot (clock c) (ticks c) snaps;
       r = rotate_days_snapshots_vol rot rotate_only c vol
   in prefix (new_requests c (snd r)) (map SnapshotId marked) \<and>
      (list_all (tolerated c) marked \<longrightarrow>
         fst r = Inr () \<and> new_requests c (snd r) = map SnapshotId marked) \<and>
      (\<forall>d. (rot \<le> timedelta_days d) = (rot * 86400000000 \<le> d)) \<and>
      (rot \<le> 0 \<and> list_all (\<lambda>(n, s). StartTime s \<le> clock c n) (enumerate (ticks c) snaps) \<longrightarrow>
         marked = snaps)"
proof -
  define snaps where "snaps = fetched c vol rotate_only"
  define marked where "marked = aged_snapshots rot (clock c) (ticks c) snaps"
  define c1 where "c1 = snd (describe_snapshots c (rotate_filters vol rotate_only))"
  obtain n where r: "rotate_days_snapshots_vol rot rotate_only c vol =
      (fst (delete_marked marked c1), (snd (delete_marked marked c1))\<lparr>ticks := n\<rparr>)"
    using rotate_days_snapshots_vol_marked [of rot rotate_only c vol]
    unfolding snaps_def marked_def c1_def by blast
  have tr: "delete_requests (trace c1) = delete_requests (trace c)"
    by (simp add: c1_def describe_snapshots_frame)
  have nr: "new_requests c ((snd (delete_marked marked c1))\<lparr>ticks := n\<rparr>) =
            new_requests c (snd (delete_marked marked c1))"
    by (simp add: new_requests_def)
  have p: "prefix (new_requests c (snd (delete_marked marked c1))) (map SnapshotId marked)"
    using delete_marked_new_requests_prefix [of c1 marked] by (simp add: new_requests_def tr)
  have t: "fst (delete_marked marked c1) = Inr () \<and>
           new_requests c (snd (delete_marked marked c1)) = map SnapshotId marked"
    if "list_all (tolerated c) marked"
  proof -
    have "\<forall>m \<in> set marked. tolerated c1 m"
      using that by (simp add: c1_def tolerated_describe list_all_iff)
    from delete_marked_tolerated [OF this] show ?thesis
      by (simp add: new_requests_def tr)
  qed
  have a: "marked = snaps"
    if "rot \<le> 0 \<and> list_all (\<lambda>(n, s). StartTime s \<le> clock c n) (enumerate (ticks c) snaps)"
    using that aged_snapshots_all [of rot "clock c" "ticks c" snaps] by (simp add: marked_def)
  show ?thesis
    unfolding Let_def snaps_def [symmetric] marked_def [symmetric] r fst_conv snd_conv nr
    using p t a timedelta_days_ge by blast
qed

lemma skewed_fetched: "fetched skewed_conn ''v3'' False = snapshots skewed_conn"
  by (simp add: fetched_def describe_snapshots_def rotate_filters_def skewed_conn_def
      filters_match_def filter_matches_def snapshot_attr_def)

theorem age_rotation_zero_counterexample:
  "fetched skewed_conn ''v3'' False = snapshots skewed_conn \<and>
   map SnapshotId (snapshots skewed_conn) = [''s7''] \<and>
   fst (rotate_days_snapshots skewed_conn [''v3''] 0 False) = Inr () \<and>
   new_requests skewed_conn (snd (rotate_days_snapshots skewed_conn [''v3''] 0 False)) = [] \<and>
   snapshots (snd (rotate_days_snapshots skewed_conn [''v3''] 0 False)) = snapshots skewed_conn"
proof -
  have f: "describe_snapshots skewed_conn (rotate_filters ''v3'' False) =
     (snapshots skewed_conn,
      skewed_conn\<lparr>trace := [DescribeSnapshots (rotate_filters ''v3'' False)]\<rparr>)"
    by (simp add: describe_snapshots_def rotate_filters_def skewed_conn_def sample_conn_def
      filters_match_def filter_matches_def snapshot_attr_def)
  have r: "rotate_days_snapshots skewed_conn [''v3''] 0 False =
     (Inr (), skewed_conn\<lparr>trace := [DescribeSnapshots (rotate_filters ''v3'' False)], ticks := 1\<rparr>)"
    unfolding rotate_days_snapshots_def
    by (simp add: rotate_days_snapshots_vol_def f)
       (simp add: skewed_conn_def sample_conn_def datetime_now_def timedelta_days_def)
  show ?thesis unfolding r
    by (simp add: skewed_fetched new_requests_def) (simp add: skewed_conn_def sample_conn_def)
qed

section \<open>Failing deletions\<close>

lemma rotate_snapshots_vol_count:
  "rotate_snapshots_vol rot rotate_only c vol =
     delete_marked (count_marked rot rotate_only c vol)
       (snd (describe_snapshots c (rotate_filters vol rotate_only)))"
  by (simp add: rotate_snapshots_vol_marked count_marked_def)

lemma rotate_days_snapshots_vol_age:
  "\<exists>n. rotate_days_snapshots_vol rot rotate_only c vol =
     (fst (delete_marked (age_marked rot rotate_only c vol)
             (snd (describe_snapshots c (rotate_filters vol rotate_only)))),
      (snd (delete_marked (age_marked rot rotate_only c vol)
             (snd (describe_snapshots c (rotate_filters vol rotate_only)))))\<lparr>ticks := n\<rparr>)"
  unfolding age_marked_def by (rule rotate_days_snapshots_vol_marked)


lemma new_requests_ticks: "new_requests c (c'\<lparr>ticks := n\<rparr>) = new_requests c c'"
  by (simp add: new_requests_def)


section \<open>Fatal errors and the loop over the volumes\<close>

lemma for_volumes_append:
  "for_volumes body (pre @ post) c =
     (case for_volumes body pre c of
        (Inl e, c1) \<Rightarrow> (Inl e, c1)
      | (Inr u, c1) \<Rightarrow> for_volumes body post c1)"
  by (induction pre arbitrary: c) (auto split: prod.splits sum.splits)

lemma for_volumes_abort:
  assumes "fst (for_volumes body pre c) = Inr ()"
    and "fst (body (snd (for_volumes body pre c)) x) = Inl e"
  shows "for_volumes body (pre @ x # post) c = body (snd (for_volumes body pre c)) x"
proof -
  obtain c1 where p: "for_volumes body pre c = (Inr (), c1)"
    using assms(1) by (cases "for_volumes body pre c") auto
  obtain c2 where b: "body c1 x = (Inl e, c2)"
    using assms(2) p by (cases "body c1 x") auto
  show ?thesis by (simp add: for_volumes_append p b)
qed

lemma delete_marked_fatal:
  assumes "\<forall>x \<in> set ms1. tolerated c x"
    and "delete_fault c (SnapshotId m) = Some e" and "\<not> in_use e"
  shows "fst (delete_marked (ms1 @ m # ms2) c) = Inl (ApiError e) \<and>
         delete_requests (trace (snd (delete_marked (ms1 @ m # ms2) c))) =
           delete_requests (trace c) @ map SnapshotId (ms1 @ [m])"
  using assms
proof (induction ms1 arbitrary: c)
  case Nil
  then show ?case
    by (simp add: try_delete_cases delete_requests_append)
next
  case (Cons x ms1)
  obtain r c1 where t: "try_delete c x = (r, c1)" by (cases "try_delete c x")
  have tx: "tolerated c x" using Cons.prems by simp
  have r: "r = Inr ()" using try_delete_tolerated(1) [OF tx] t by simp
  have fr: "delete_fault c1 = delete_fault c" using try_delete_frame(1) [of c x] t by simp
  have c1: "delete_requests (trace c1) = delete_requests (trace c) @ [SnapshotId x]"
    using try_delete_tolerated(2) [OF tx] t by simp
  have "\<forall>y \<in> set ms1. tolerated c1 y" using Cons.prems tolerated_frame [OF fr] by simp
  from Cons.IH [OF this] Cons.prems(2,3) fr
  have "fst (delete_marked (ms1 @ m # ms2) c1) = Inl (ApiError e) \<and>
         delete_requests (trace (snd (delete_marked (ms1 @ m # ms2) c1))) =
           delete_requests (trace c1) @ map SnapshotId (ms1 @ [m])"
    by simp
  with t r c1 show ?case by simp
qed

lemma marked_run_fatal:
  assumes "list_all (tolerated c) ms1"
    and "delete_fault c (SnapshotId m) = Some e" and "\<not> in_use e"
    and c1_def: "c1 = snd (describe_snapshots c fs)"
  shows "fst (delete_marked (ms1 @ m # ms2) c1) = Inl (ApiError e) \<and>
         new_requests c (snd (delete_marked (ms1 @ m # ms2) c1)) = map SnapshotId (ms1 @ [m])"
proof -
  have fr: "delete_fault c1 = delete_fault c"
    "delete_requests (trace c1) = delete_requests (trace c)"
    by (simp_all add: c1_def describe_snapshots_frame)
  have "\<forall>x \<in> set ms1. tolerated c1 x"
    using assms(1) tolerated_frame [OF fr(1)] by (simp add: list_all_iff)
  from delete_marked_fatal [OF this, of m e ms2] assms(2,3) fr show ?thesis
    by (simp add: new_requests_def)
qed

text \<open>
  C4, as the code has it. An exception that leaves the body of
  \<^verbatim>\<open>for vol in volumes\<close> leaves the whole call. If the volumes \<open>pre\<close> before
  \<open>X\<close> are rotated without an exception and the body then fails for \<open>X\<close>, the call on
  \<open>pre @ X # post\<close> ends with that exception in the very state in which the body for
  \<open>X\<close> ended: the deletions for \<open>pre\<close> stand, and no volume of \<open>post\<close> is looked at.
  Inside the body for \<open>X\<close>, if the marked snapshots are \<open>ms1 @ m # ms2\<close>, those of
  \<open>ms1\<close> are deleted or in use, and the deletion of \<open>m\<close> fails with another
  exception \<open>e\<close>, then the body raises \<open>e\<close> after requesting the deletions of
  \<open>ms1\<close> and of \<open>m\<close>, and requests none for \<open>ms2\<close>. Both rotations behave so.
\<close>

theorem fatal_error_aborts_call:
  "(fst (rotate_snapshots c pre rot rotate_only) = Inr () \<and>
    fst (rotate_snapshots_vol rot rotate_only (snd (rotate_snapshots c pre rot rotate_only)) X) = Inl err
    \<longrightarrow> rotate_snapshots c (pre @ X # post) rot rotate_only =
          rotate_snapshots_vol rot rotate_only (snd (rotate_snapshots c pre rot rotate_only)) X) \<and>
   (fst (rotate_days_snapshots c pre rot rotate_only) = Inr () \<and>
    fst (rotate_days_snapshots_vol rot rotate_only (snd (rotate_days_snapshots c pre rot rotate_only)) X) = Inl err
    \<longrightarrow> rotate_days_snapshots c (pre @ X # post) rot rotate_only =
          rotate_days_snapshots_vol rot rotate_only (snd (rotate_days_snapshots c pre rot rotate_only)) X) \<and>
   (count_marked rot rotate_only c X = ms1 @ m # ms2 \<and> list_all (tolerated c) ms1 \<and>
    delete_fault c (SnapshotId m) = Some e \<and> \<not> in_use e
    \<longrightarrow> fst (rotate_snapshots_vol rot rotate_only c X) = Inl (ApiError e) \<and>
        new_requests c (snd (rotate_snapshots_vol rot rotate_only c X)) = map SnapshotId (ms1 @ [m])) \<and>
   (age_marked rot rotate_only c X = ms1 @ m # ms2 \<and> list_all (tolerated c) ms1 \<and>
    delete_fault c (SnapshotId m) = Some e \<and> \<not> in_use e
    \<longrightarrow> fst (rotate_days_snapshots_vol rot rotate_only c X) = Inl (ApiError e) \<and>
        new_requests c (snd (rotate_days_snapshots_vol rot rotate_only c X)) = map SnapshotId (ms1 @ [m]))"
proof (intro conjI impI)
  assume "fst (rotate_snapshots c pre rot rotate_only) = Inr () \<and>
    fst (rotate_snapshots_vol rot rotate_only (snd (rotate_snapshots c pre rot rotate_only)) X) = Inl err"
  then show "rotate_snapshots c (pre @ X # post) rot rotate_only =
          rotate_snapshots_vol rot rotate_only (snd (rotate_snapshots c pre rot rotate_only)) X"
    unfolding rotate_snapshots_def by (simp add: for_volumes_abort)
next
  assume "fst (rotate_days_snapshots c pre rot rotate_only) = Inr () \<and>
    fst (rotate_days_snapshots_vol rot rotate_only (snd (rotate_days_snapshots c pre rot rotate_only)) X) = Inl err"
  then show "rotate_days_snapshots c (pre @ X # post) rot rotate_only =
          rotate_days_snapshots_vol rot rotate_only (snd (rotate_days_snapshots c pre rot rotate_only)) X"
    unfolding rotate_days_snapshots_def by (simp add: for_volumes_abort)
next
  assume a: "count_marked rot rotate_only c X = ms1 @ m # ms2 \<and> list_all (tolerated c) ms1 \<and>
    delete_fault c (SnapshotId m) = Some e \<and> \<not> in_use e"
  from a marked_run_fatal [of c ms1 m e _ "rotate_filters X rotate_only" ms2]
  have "fst (rotate_snapshots_vol rot rotate_only c X) = Inl (ApiError e) \<and>
        new_requests c (snd (rotate_snapshots_vol rot rotate_only c X)) = map SnapshotId (ms1 @ [m])"
    unfolding rotate_snapshots_vol_count by simp
  then show "fst (rotate_snapshots_vol rot rotate_only c X) = Inl (ApiError e)"
    and "new_requests c (snd (rotate_snapshots_vol rot rotate_only c X)) = map SnapshotId (ms1 @ [m])"
    by simp_all
next
  assume a: "age_marked rot rotate_only c X = ms1 @ m # ms2 \<and> list_all (tolerated c) ms1 \<and>
    delete_fault c (SnapshotId m) = Some e \<and> \<not> in_use e"
  obtain n where n: "rotate_days_snapshots_vol rot rotate_only c X =
     (fst (delete_marked (age_marked rot rotate_only c X)
             (snd (describe_snapshots c (rotate_filters X rotate_only)))),
      (snd (delete_marked (age_marked rot rotate_only c X)
             (snd (describe_snapshots c (rotate_filters X rotate_only)))))\<lparr>ticks := n\<rparr>)"
    using rotate_days_snapshots_vol_age by blast
  from a marked_run_fatal [of c ms1 m e _ "rotate_filters X rotate_only" ms2]
  have "fst (rotate_days_snapshots_vol rot rotate_only c X) = Inl (ApiError e) \<and>
        new_requests c (snd (rotate_days_snapshots_vol rot rotate_only c X)) = map SnapshotId (ms1 @ [m])"
    unfolding n by (simp add: new_requests_ticks)
  then show "fst (rotate_days_snapshots_vol rot rotate_only c X) = Inl (ApiError e)"
    and "new_requests c (snd (rotate_days_snapshots_vol rot rotate_only c X)) = map SnapshotId (ms1 @ [m])"
    by simp_all
qed


lemma sample_run_1: "fst (rotate_snapshots sample_conn [''v1''] 0 False) = Inr ()"
  by code_simp

lemma sample_run_2:
  "fst (rotate_snapshots_vol 0 False (snd (rotate_snapshots sample_conn [''v1''] 0 False)) ''v2'') =
     Inl (ApiError (ClientError ''InternalError''))"
  by code_simp

lemma sample_run_3: "fst (rotate_days_snapshots sample_conn [''v1''] 0 False) = Inr ()"
  by code_simp

lemma sample_run_4:
  "fst (rotate_days_snapshots_vol 0 False (snd (rotate_days_snapshots sample_conn [''v1''] 0 False)) ''v2'') =
     Inl (ApiError (ClientError ''InternalError''))"
  by code_simp

lemma sample_run_5:
  "count_marked 0 False sample_conn ''v2'' = [] @ sample_snapshots ! 4 # [sample_snapshots ! 5]"
  "age_marked 0 False sample_conn ''v2'' = [] @ sample_snapshots ! 4 # [sample_snapshots ! 5]"
  "delete_fault sample_conn (SnapshotId (sample_snapshots ! 4)) = Some (ClientError ''InternalError'')"
  "\<not> in_use (ClientError ''InternalError'')"
  "map SnapshotId ([] @ [sample_snapshots ! 4]) = [''s5'']"
  by code_simp+


theorem fatal_error_aborts_call_witness:
  "fst (rotate_snapshots sample_conn [''v1''] 0 False) = Inr () \<and>
   fst (rotate_snapshots_vol 0 False (snd (rotate_snapshots sample_conn [''v1''] 0 False)) ''v2'') =
     Inl (ApiError (ClientError ''InternalError'')) \<and>
   rotate_snapshots sample_conn ([''v1''] @ ''v2'' # [''v1'']) 0 False =
     rotate_snapshots_vol 0 False (snd (rotate_snapshots sample_conn [''v1''] 0 False)) ''v2'' \<and>
   fst (rotate_days_snapshots sample_conn [''v1''] 0 False) = Inr () \<and>
   fst (rotate_days_snapshots_vol 0 False (snd (rotate_days_snapshots sample_conn [''v1''] 0 False)) ''v2'') =
     Inl (ApiError (ClientError ''InternalError'')) \<and>
   rotate_days_snapshots sample_conn ([''v1''] @ ''v2'' # [''v1'']) 0 False =
     rotate_days_snapshots_vol 0 False (snd (rotate_days_snapshots sample_conn [''v1''] 0 False)) ''v2'' \<and>
   count_marked 0 False sample_conn ''v2'' = [] @ sample_snapshots ! 4 # [sample_snapshots ! 5] \<and>
   age_marked 0 False sample_conn ''v2'' = [] @ sample_snapshots ! 4 # [sample_snapshots ! 5] \<and>
   list_all (tolerated sample_conn) [] \<and>
   delete_fault sample_conn (SnapshotId (sample_snapshots ! 4)) = Some (ClientError ''InternalError'') \<and>
   \<not> in_use (ClientError ''InternalError'') \<and>
   fst (rotate_snapshots_vol 0 False sample_conn ''v2'') = Inl (ApiError (ClientError ''InternalError'')) \<and>
   new_requests sample_conn (snd (rotate_snapshots_vol 0 False sample_conn ''v2'')) = [''s5''] \<and>
   fst (rotate_days_snapshots_vol 0 False sample_conn ''v2'') = Inl (ApiError (ClientError ''InternalError'')) \<and>
   new_requests sample_conn (snd (rotate_days_snapshots_vol 0 False sample_conn ''v2'')) = [''s5'']"
proof -
  note t = fatal_error_aborts_call [where c = sample_conn and pre = "[''v1'']" and rot = 0
      and rotate_only = False and X = "''v2''" and err = "ApiError (ClientError ''InternalError'')"
      and post = "[''v1'']" and ?ms1.0 = "[]" and m = "sample_snapshots ! 4"
      and e = "ClientError ''InternalError''" and ?ms2.0 = "[sample_snapshots ! 5]"]
  have l: "list_all (tolerated sample_conn) []" by simp
  from t sample_run_1 sample_run_2 sample_run_3 sample_run_4 sample_run_5 l
  show ?thesis by presburger
qed

text \<open>
  The call on the volumes \<open>v2\<close>, \<open>v1\<close> with \<open>rot = 0\<close>: the deletion of \<open>s5\<close>, the
  first marked snapshot of \<open>v2\<close>, fails with a client error that is not the in-use
  error. The call raises it; the four marked snapshots of \<open>v1\<close>, the volume after
  \<open>v2\<close>, are never requested and all snapshots of the account are still there.
\<close>

theorem volume_after_fatal_counterexample:
  "fst (rotate_snapshots sample_conn [''v2'', ''v1''] 0 False) = Inl (ApiError (ClientError ''InternalError'')) \<and>
   new_requests sample_conn (snd (rotate_snapshots sample_conn [''v2'', ''v1''] 0 False)) = [''s5''] \<and>
   snapshots (snd (rotate_snapshots sample_conn [''v2'', ''v1''] 0 False)) = snapshots sample_conn \<and>
   map SnapshotId (count_marked 0 False sample_conn ''v1'') = [''s2'', ''s4'', ''s3'', ''s1''] \<and>
   fst (rotate_days_snapshots sample_conn [''v2'', ''v1''] 0 False) = Inl (ApiError (ClientError ''InternalError'')) \<and>
   new_requests sample_conn (snd (rotate_days_snapshots sample_conn [''v2'', ''v1''] 0 False)) = [''s5''] \<and>
   snapshots (snd (rotate_days_snapshots sample_conn [''v2'', ''v1''] 0 False)) = snapshots sample_conn \<and>
   map SnapshotId (age_marked 0 False sample_conn ''v1'') = [''s1'', ''s2'', ''s3'', ''s4'']"
  by code_simp

section \<open>The scope filter\<close>

lemma generate_description_not_old: "generate_description stamp \<notin> set OLD_DESCRIPTION"
  by (simp add: generate_description_def OLD_DESCRIPTION_def)

lemma fetched_rotate_only:
  "fetched c vol True = filter (\<lambda>s. VolumeId s = vol \<and> Description s \<in> set OLD_DESCRIPTION) (snapshots c)"
  "fetched c vol False = filter (\<lambda>s. VolumeId s = vol) (snapshots c)"
  by (auto simp: fetched_def describe_snapshots_def rotate_filters_def filters_match_def
      filter_matches_def snapshot_attr_def list_ex_iff intro!: filter_cong)

text \<open>
  C5. An account whose only snapshot belongs to \<open>vol\<close> and carries the description that
  \<^verbatim>\<open>generate_description\<close> produces now, for any time stamp. With
  \<^verbatim>\<open>rotate_only\<close> the description filter holds the strings of
  \<^verbatim>\<open>OLD_DESCRIPTION\<close> only, so the snapshot is not fetched and neither rotation
  ever requests its deletion, although both request it without \<^verbatim>\<open>rotate_only\<close>
  (\<open>rot = 0\<close>, a clock reading not before the snapshot's time).
\<close>

theorem rotate_only_misses_current_description:
  "let s = \<lparr>SnapshotId = sid, VolumeId = vol, StartTime = t,
              Description = generate_description stamp\<rparr>;
       c' = c\<lparr>snapshots := [s], clock := (\<lambda>n. t), ticks := 0\<rparr>
   in fetched c' vol True = [] \<and>
      fetched c' vol False = [s] \<and>
      new_requests c' (snd (rotate_snapshots c' [vol] rot True)) = [] \<and>
      new_requests c' (snd (rotate_days_snapshots c' [vol] rot True)) = [] \<and>
      new_requests c' (snd (rotate_snapshots c' [vol] 0 False)) = [sid] \<and>
      new_requests c' (snd (rotate_days_snapshots c' [vol] 0 False)) = [sid]"
proof -
  define s where "s = \<lparr>SnapshotId = sid, VolumeId = vol, StartTime = t,
              Description = generate_description stamp\<rparr>"
  define c' where "c' = c\<lparr>snapshots := [s], clock := (\<lambda>n. t), ticks := 0\<rparr>"
  have f1: "fetched c' vol True = []"
    using generate_description_not_old by (simp add: fetched_rotate_only c'_def s_def)
  have f2: "fetched c' vol False = [s]"
    by (simp add: fetched_rotate_only c'_def s_def)
  have cm1: "count_marked rot True c' vol = []" by (simp add: count_marked_def f1 sort_reverse_def)
  have am1: "age_marked rot True c' vol = []" by (simp add: age_marked_def f1 aged_snapshots_def)
  have cm2: "count_marked 0 False c' vol = [s]" by (simp add: count_marked_def f2 sort_reverse_def)
  have ck: "clock c' = (\<lambda>n. t)" "ticks c' = 0" "StartTime s = t"
    by (simp_all add: c'_def s_def)
  have am2: "age_marked 0 False c' vol = [s]"
    by (simp add: age_marked_def f2 ck aged_snapshots_def enumerate_simps timedelta_days_def)
  have p: "prefix (new_requests c (snd (delete_marked ms (snd (describe_snapshots c fs)))))
             (map SnapshotId ms)" for c ms fs
    using delete_marked_new_requests_prefix [of "snd (describe_snapshots c fs)" ms]
    by (simp add: new_requests_def describe_snapshots_frame)
  have one: "new_requests c (snd (delete_marked [m] (snd (describe_snapshots c fs)))) = [SnapshotId m]"
    for c m fs
    by (simp add: new_requests_def describe_snapshots_frame try_delete_cases delete_requests_append
        split: option.splits prod.splits sum.splits)
  have r1: "new_requests c' (snd (rotate_snapshots c' [vol] rot True)) = []"
    using p [of c' "count_marked rot True c' vol" "rotate_filters vol True"]
    by (simp add: rotate_snapshots_def rotate_snapshots_vol_count cm1 split: prod.splits sum.splits)
  obtain n where n: "rotate_days_snapshots_vol rot True c' vol =
     (fst (delete_marked (age_marked rot True c' vol)
             (snd (describe_snapshots c' (rotate_filters vol True)))),
      (snd (delete_marked (age_marked rot True c' vol)
             (snd (describe_snapshots c' (rotate_filters vol True)))))\<lparr>ticks := n\<rparr>)"
    using rotate_days_snapshots_vol_age by blast
  have r2: "new_requests c' (snd (rotate_days_snapshots c' [vol] rot True)) = []"
    unfolding rotate_days_snapshots_def
    by (simp add: n am1 new_requests_def describe_snapshots_frame)
  have r3: "new_requests c' (snd (rotate_snapshots c' [vol] 0 False)) = [sid]"
    using one [of c' s "rotate_filters vol False"]
    by (simp add: rotate_snapshots_def rotate_snapshots_vol_count cm2 s_def split: prod.splits sum.splits)
  obtain k where k: "rotate_days_snapshots_vol 0 False c' vol =
     (fst (delete_marked (age_marked 0 False c' vol)
             (snd (describe_snapshots c' (rotate_filters vol False)))),
      (snd (delete_marked (age_marked 0 False c' vol)
             (snd (describe_snapshots c' (rotate_filters vol False)))))\<lparr>ticks := k\<rparr>)"
    using rotate_days_snapshots_vol_age by blast
  have r4: "new_requests c' (snd (rotate_days_snapshots c' [vol] 0 False)) = [sid]"
    using one [of c' s "rotate_filters vol False"]
    unfolding rotate_days_snapshots_def
    by (simp add: k am2 new_requests_ticks s_def split: prod.splits sum.splits)
  show ?thesis
    unfolding Let_def s_def [symmetric] c'_def [symmetric]
    using f1 f2 r1 r2 r3 r4 by simp
qed

section \<open>The rotation calls, volume by volume\<close>

lemma for_volumes_snoc:
  assumes "fst (for_volumes body pre c) = Inr ()"
  shows "for_volumes body (pre @ [vol]) c = body (snd (for_volumes body pre c)) vol"
proof -
  obtain c1 where p: "for_volumes body pre c = (Inr (), c1)"
    using assms by (cases "for_volumes body pre c") auto
  show ?thesis by (simp add: for_volumes_append p split: prod.splits sum.splits)
qed

lemma for_volumes_split:
  "for_volumes body (pre @ vol # post) c =
     (case for_volumes body (pre @ [vol]) c of
        (Inl e, c2) \<Rightarrow> (Inl e, c2)
      | (Inr u, c2) \<Rightarrow> for_volumes body post c2)"
proof -
  have "for_volumes body (pre @ vol # post) c = for_volumes body ((pre @ [vol]) @ post) c" by simp
  also have "\<dots> = (case for_volumes body (pre @ [vol]) c of
        (Inl e, c2) \<Rightarrow> (Inl e, c2)
      | (Inr u, c2) \<Rightarrow> for_volumes body post c2)"
    by (rule for_volumes_append)
  finally show ?thesis .
qed

lemma rotate_snapshots_snoc:
  "fst (rotate_snapshots c pre rot rotate_only) = Inr () \<Longrightarrow>
   rotate_snapshots c (pre @ [vol]) rot rotate_only =
     rotate_snapshots_vol rot rotate_only (snd (rotate_snapshots c pre rot rotate_only)) vol"
  unfolding rotate_snapshots_def by (rule for_volumes_snoc)

lemma rotate_days_snapshots_snoc:
  "fst (rotate_days_snapshots c pre rot rotate_only) = Inr () \<Longrightarrow>
   rotate_days_snapshots c (pre @ [vol]) rot rotate_only =
     rotate_days_snapshots_vol rot rotate_only (snd (rotate_days_snapshots c pre rot rotate_only)) vol"
  unfolding rotate_days_snapshots_def by (rule for_volumes_snoc)

lemma rotate_snapshots_split:
  "rotate_snapshots c (pre @ vol # post) rot rotate_only =
     (case rotate_snapshots c (pre @ [vol]) rot rotate_only of
        (Inl e, c2) \<Rightarrow> (Inl e, c2)
      | (Inr u, c2) \<Rightarrow> rotate_snapshots c2 post rot rotate_only)"
  unfolding rotate_snapshots_def by (rule for_volumes_split)

lemma rotate_days_snapshots_split:
  "rotate_days_snapshots c (pre @ vol # post) rot rotate_only =
     (case rotate_days_snapshots c (pre @ [vol]) rot rotate_only of
        (Inl e, c2) \<Rightarrow> (Inl e, c2)
      | (Inr u, c2) \<Rightarrow> rotate_days_snapshots c2 post rot rotate_only)"
  unfolding rotate_days_snapshots_def by (rule for_volumes_split)

text \<open>
  C1. Take a call of \<^verbatim>\<open>rotate_snapshots\<close> on the volumes \<open>pre @ vol # post\<close> in
  which the volumes of \<open>pre\<close> are rotated without an exception, so that the call reaches
  \<open>vol\<close>, and let \<^verbatim>\<open>describe_snapshots\<close> return at least \<open>rot\<close> snapshots for
  \<open>vol\<close> then. The call sorts them by \<open>StartTime\<close>, newest first; the sort is a
  permutation and keeps the returned order among snapshots of equal time. The deletions
  that the call requests for \<open>vol\<close> are, in order, those of the snapshots at the
  positions \<open>rot\<close> and later of the sorted list: always an initial part of them, so
  that none of the first \<open>rot\<close> positions is ever requested, and all of them when no
  deletion fails with an exception other than the in-use client error. The call then goes
  on with \<open>post\<close>, or ends with the exception that the rotation of \<open>vol\<close> raised.
\<close>

theorem count_rotation_selection:
  assumes "fst (rotate_snapshots c pre rot rotate_only) = Inr ()"
    and "rot \<le> int (length (fetched (snd (rotate_snapshots c pre rot rotate_only)) vol rotate_only))"
  shows "let c1 = snd (rotate_snapshots c pre rot rotate_only);
             snaps = fetched c1 vol rotate_only;
             sorted_snaps = sort_reverse snaps;
             marked = drop (nat rot) sorted_snaps;
             r = rotate_snapshots c (pre @ [vol]) rot rotate_only
         in sorted_wrt (\<lambda>a b. StartTime b \<le> StartTime a) sorted_snaps \<and>
            mset sorted_snaps = mset snaps \<and>
            (\<forall>t. filter (\<lambda>s. StartTime s = t) sorted_snaps = filter (\<lambda>s. StartTime s = t) snaps) \<and>
            prefix (new_requests c1 (snd r)) (map SnapshotId marked) \<and>
            (list_all (tolerated c1) marked \<longrightarrow>
               fst r = Inr () \<and> new_requests c1 (snd r) = map SnapshotId marked) \<and>
            rotate_snapshots c (pre @ vol # post) rot rotate_only =
              (case r of
                 (Inl e, c2) \<Rightarrow> (Inl e, c2)
               | (Inr u, c2) \<Rightarrow> rotate_snapshots c2 post rot rotate_only)"
proof -
  have r: "rotate_snapshots c (pre @ [vol]) rot rotate_only =
     rotate_snapshots_vol rot rotate_only (snd (rotate_snapshots c pre rot rotate_only)) vol"
    using assms(1) by (rule rotate_snapshots_snoc)
  show ?thesis
    using count_body_selection [OF assms(2)] rotate_snapshots_split [of c pre vol post rot rotate_only]
    unfolding Let_def r by simp
qed


lemma sample_count_run:
  "fst (rotate_snapshots sample_conn [''v2''] 1 False) = Inr ()"
  "1 \<le> int (length (fetched (snd (rotate_snapshots sample_conn [''v2''] 1 False)) ''v1'' False))"
  "map SnapshotId (sort_reverse (fetched (snd (rotate_snapshots sample_conn [''v2''] 1 False)) ''v1'' False)) =
     [''s2'', ''s4'', ''s3'', ''s1'']"
  "list_all (tolerated (snd (rotate_snapshots sample_conn [''v2''] 1 False)))
     (drop (nat 1) (sort_reverse (fetched (snd (rotate_snapshots sample_conn [''v2''] 1 False)) ''v1'' False)))"
  "map SnapshotId
     (drop (nat 1) (sort_reverse (fetched (snd (rotate_snapshots sample_conn [''v2''] 1 False)) ''v1'' False))) =
     [''s4'', ''s3'', ''s1'']"
  by code_simp+

theorem count_rotation_selection_witness:
  "fst (rotate_snapshots sample_conn [''v2''] 1 False) = Inr () \<and>
   1 \<le> int (length (fetched (snd (rotate_snapshots sample_conn [''v2''] 1 False)) ''v1'' False)) \<and>
   map SnapshotId (sort_reverse (fetched (snd (rotate_snapshots sample_conn [''v2''] 1 False)) ''v1'' False)) =
     [''s2'', ''s4'', ''s3'', ''s1''] \<and>
   list_all (tolerated (snd (rotate_snapshots sample_conn [''v2''] 1 False)))
     (drop (nat 1) (sort_reverse (fetched (snd (rotate_snapshots sample_conn [''v2''] 1 False)) ''v1'' False))) \<and>
   fst (rotate_snapshots sample_conn ([''v2''] @ [''v1'']) 1 False) = Inr () \<and>
   new_requests (snd (rotate_snapshots sample_conn [''v2''] 1 False))
     (snd (rotate_snapshots sample_conn ([''v2''] @ [''v1'']) 1 False)) = [''s4'', ''s3'', ''s1''] \<and>
   rotate_snapshots sample_conn ([''v2''] @ ''v1'' # [''v2'']) 1 False =
     rotate_snapshots (snd (rotate_snapshots sample_conn ([''v2''] @ [''v1'']) 1 False)) [''v2''] 1 False"
proof -
  note t = count_rotation_selection [OF sample_count_run(1) sample_count_run(2),
      where post = "[''v2'']", unfolded Let_def]
  from t sample_count_run(4)
  have r: "fst (rotate_snapshots sample_conn ([''v2''] @ [''v1'']) 1 False) = Inr ()"
    "new_requests (snd (rotate_snapshots sample_conn [''v2''] 1 False))
       (snd (rotate_snapshots sample_conn ([''v2''] @ [''v1'']) 1 False)) =
     map SnapshotId
       (drop (nat 1) (sort_reverse (fetched (snd (rotate_snapshots sample_conn [''v2''] 1 False)) ''v1'' False)))"
    by blast+
  from t have "rotate_snapshots sample_conn ([''v2''] @ ''v1'' # [''v2'']) 1 False =
     (case rotate_snapshots sample_conn ([''v2''] @ [''v1'']) 1 False of
        (Inl e, c2) \<Rightarrow> (Inl e, c2)
      | (Inr u, c2) \<Rightarrow> rotate_snapshots c2 [''v2''] 1 False)"
    by blast
  with r(1) have w: "rotate_snapshots sample_conn ([''v2''] @ ''v1'' # [''v2'']) 1 False =
     rotate_snapshots (snd (rotate_snapshots sample_conn ([''v2''] @ [''v1'']) 1 False)) [''v2''] 1 False"
    by (simp add: case_prod_unfold)
  show ?thesis
    using sample_count_run(1,2,3,4) r(1) w unfolding r(2) sample_count_run(5) by blast
qed

text \<open>
  C2, as the code has it. Take a call of \<^verbatim>\<open>rotate_days_snapshots\<close> on the volumes
  \<open>pre @ vol # post\<close> in which the volumes of \<open>pre\<close> are rotated without an exception,
  so that the call reaches \<open>vol\<close>. For each snapshot that \<^verbatim>\<open>describe_snapshots\<close>
  returns for \<open>vol\<close>, the call reads the clock and marks the snapshot when the number of
  whole days between its \<open>StartTime\<close> and that reading, rounded down
  (\<^verbatim>\<open>timedelta.days\<close>), is at least \<open>rot\<close>; this is the same as the difference
  being at least \<open>rot\<close> days, so a snapshot exactly \<open>rot\<close> days old is marked and
  one \<open>rot - 1\<close> days old is not. There is no count floor. The deletions that the call
  requests for \<open>vol\<close> are, in order, those of the marked snapshots: an initial part of
  them always, and all of them when no deletion fails with an exception other than the
  in-use client error. With \<open>rot \<le> 0\<close> every snapshot whose \<open>StartTime\<close> is not
  later than the clock reading made for it is marked. The call then goes on with \<open>post\<close>,
  or ends with the exception that the rotation of \<open>vol\<close> raised.
\<close>

theorem age_rotation_selection:
  assumes "fst (rotate_days_snapshots c pre rot rotate_only) = Inr ()"
  shows "let c1 = snd (rotate_days_snapshots c pre rot rotate_only);
             snaps = fetched c1 vol rotate_only;
             marked = aged_snapshots rot (clock c1) (ticks c1) snaps;
             r = rotate_days_snapshots c (pre @ [vol]) rot rotate_only
         in prefix (new_requests c1 (snd r)) (map SnapshotId marked) \<and>
            (list_all (tolerated c1) marked \<longrightarrow>
               fst r = Inr () \<and> new_requests c1 (snd r) = map SnapshotId marked) \<and>
            (\<forall>d. (rot \<le> timedelta_days d) = (rot * 86400000000 \<le> d)) \<and>
            (rot \<le> 0 \<and> list_all (\<lambda>(n, s). StartTime s \<le> clock c1 n) (enumerate (ticks c1) snaps) \<longrightarrow>
               marked = snaps) \<and>
            rotate_days_snapshots c (pre @ vol # post) rot rotate_only =
              (case r of
                 (Inl e, c2) \<Rightarrow> (Inl e, c2)
               | (Inr u, c2) \<Rightarrow> rotate_days_snapshots c2 post rot rotate_only)"
proof -
  have r: "rotate_days_snapshots c (pre @ [vol]) rot rotate_only =
     rotate_days_snapshots_vol rot rotate_only (snd (rotate_days_snapshots c pre rot rotate_only)) vol"
    using assms by (rule rotate_days_snapshots_snoc)
  show ?thesis
    using age_body_selection [of "snd (rotate_days_snapshots c pre rot rotate_only)" vol rotate_only rot]
      rotate_days_snapshots_split [of c pre vol post rot rotate_only]
    unfolding Let_def r by simp
qed


lemma in_use_days_run:
  "fst (rotate_days_snapshots in_use_conn [''v2''] 0 False) = Inr ()"
  "list_all (tolerated (snd (rotate_days_snapshots in_use_conn [''v2''] 0 False)))
     (aged_snapshots 0 (clock (snd (rotate_days_snapshots in_use_conn [''v2''] 0 False)))
        (ticks (snd (rotate_days_snapshots in_use_conn [''v2''] 0 False)))
        (fetched (snd (rotate_days_snapshots in_use_conn [''v2''] 0 False)) ''v1'' False))"
  "list_all (\<lambda>(n, s). StartTime s \<le> clock (snd (rotate_days_snapshots in_use_conn [''v2''] 0 False)) n)
     (enumerate (ticks (snd (rotate_days_snapshots in_use_conn [''v2''] 0 False)))
        (fetched (snd (rotate_days_snapshots in_use_conn [''v2''] 0 False)) ''v1'' False))"
  "map SnapshotId (fetched (snd (rotate_days_snapshots in_use_conn [''v2''] 0 False)) ''v1'' False) =
     [''s1'', ''s2'', ''s3'', ''s4'']"
  "fst (rotate_days_snapshots in_use_conn [] 10 False) = Inr ()"
  "list_all (tolerated (snd (rotate_days_snapshots in_use_conn [] 10 False)))
     (aged_snapshots 10 (clock (snd (rotate_days_snapshots in_use_conn [] 10 False)))
        (ticks (snd (rotate_days_snapshots in_use_conn [] 10 False)))
        (fetched (snd (rotate_days_snapshots in_use_conn [] 10 False)) ''v1'' False))"
  "map SnapshotId
     (aged_snapshots 10 (clock (snd (rotate_days_snapshots in_use_conn [] 10 False)))
        (ticks (snd (rotate_days_snapshots in_use_conn [] 10 False)))
        (fetched (snd (rotate_days_snapshots in_use_conn [] 10 False)) ''v1'' False)) =
     [''s2'', ''s3'', ''s4'']"
  by code_simp+

theorem age_rotation_selection_witness:
  "fst (rotate_days_snapshots in_use_conn [''v2''] 0 False) = Inr () \<and>
   list_all (tolerated (snd (rotate_days_snapshots in_use_conn [''v2''] 0 False)))
     (aged_snapshots 0 (clock (snd (rotate_days_snapshots in_use_conn [''v2''] 0 False)))
        (ticks (snd (rotate_days_snapshots in_use_conn [''v2''] 0 False)))
        (fetched (snd (rotate_days_snapshots in_use_conn [''v2''] 0 False)) ''v1'' False)) \<and>
   list_all (\<lambda>(n, s). StartTime s \<le> clock (snd (rotate_days_snapshots in_use_conn [''v2''] 0 False)) n)
     (enumerate (ticks (snd (rotate_days_snapshots in_use_conn [''v2''] 0 False)))
        (fetched (snd (rotate_days_snapshots in_use_conn [''v2''] 0 False)) ''v1'' False)) \<and>
   fst (rotate_days_snapshots in_use_conn ([''v2''] @ [''v1'']) 0 False) = Inr () \<and>
   new_requests (snd (rotate_days_snapshots in_use_conn [''v2''] 0 False))
     (snd (rotate_days_snapshots in_use_conn ([''v2''] @ [''v1'']) 0 False)) =
     [''s1'', ''s2'', ''s3'', ''s4''] \<and>
   fst (rotate_days_snapshots in_use_conn [] 10 False) = Inr () \<and>
   fst (rotate_days_snapshots in_use_conn ([] @ [''v1'']) 10 False) = Inr () \<and>
   new_requests (snd (rotate_days_snapshots in_use_conn [] 10 False))
     (snd (rotate_days_snapshots in_use_conn ([] @ [''v1'']) 10 False)) = [''s2'', ''s3'', ''s4'']"
proof -
  note t0 = age_rotation_selection [OF in_use_days_run(1), where vol = "''v1''", unfolded Let_def]
  from t0 in_use_days_run(3)
  have a0: "aged_snapshots 0 (clock (snd (rotate_days_snapshots in_use_conn [''v2''] 0 False)))
        (ticks (snd (rotate_days_snapshots in_use_conn [''v2''] 0 False)))
        (fetched (snd (rotate_days_snapshots in_use_conn [''v2''] 0 False)) ''v1'' False) =
      fetched (snd (rotate_days_snapshots in_use_conn [''v2''] 0 False)) ''v1'' False"
    by simp
  from t0 in_use_days_run(2)
  have r0: "fst (rotate_days_snapshots in_use_conn ([''v2''] @ [''v1'']) 0 False) = Inr ()"
    "new_requests (snd (rotate_days_snapshots in_use_conn [''v2''] 0 False))
       (snd (rotate_days_snapshots in_use_conn ([''v2''] @ [''v1'']) 0 False)) =
     map SnapshotId (aged_snapshots 0 (clock (snd (rotate_days_snapshots in_use_conn [''v2''] 0 False)))
        (ticks (snd (rotate_days_snapshots in_use_conn [''v2''] 0 False)))
        (fetched (snd (rotate_days_snapshots in_use_conn [''v2''] 0 False)) ''v1'' False))"
    by blast+
  note t10 = age_rotation_selection [OF in_use_days_run(5), where vol = "''v1''", unfolded Let_def]
  from t10 in_use_days_run(6)
  have r10: "fst (rotate_days_snapshots in_use_conn ([] @ [''v1'']) 10 False) = Inr ()"
    "new_requests (snd (rotate_days_snapshots in_use_conn [] 10 False))
       (snd (rotate_days_snapshots in_use_conn ([] @ [''v1'']) 10 False)) =
     map SnapshotId (aged_snapshots 10 (clock (snd (rotate_days_snapshots in_use_conn [] 10 False)))
        (ticks (snd (rotate_days_snapshots in_use_conn [] 10 False)))
        (fetched (snd (rotate_days_snapshots in_use_conn [] 10 False)) ''v1'' False))"
    by blast+
  show ?thesis
    using in_use_days_run(1,2,3,5) r0(1) r10(1)
    unfolding r0(2) r10(2) a0 in_use_days_run(4) in_use_days_run(7)
    by blast
qed




























section \<open>What the locator returns\<close>

lemma for_mappings_eq:
  "for_mappings ms volumes = volumes @ map (\<lambda>vol. Ebs_VolumeId (Ebs vol)) ms"
  by (induction ms arbitrary: volumes) simp_all

lemma for_instances_eq:
  "for_instances is volumes =
     volumes @ map (\<lambda>vol. Ebs_VolumeId (Ebs vol)) (concat (map BlockDeviceMappings is))"
  by (induction "is" arbitrary: volumes) (simp_all add: for_mappings_eq)

lemma for_reservations_eq:
  "for_reservations rs volumes = volumes @ response_volumes rs"
  by (induction rs arbitrary: volumes) (simp_all add: for_instances_eq response_volumes_def)

lemma for_vol_eq: "for_vol vs volumes = volumes @ map Volume_VolumeId vs"
  by (induction vs arbitrary: volumes) simp_all

lemma find_instance_by_id_result:
  "fst (find_instance_by_id c instance_id) =
     map_sum ApiError (\<lambda>resp. response_volumes (get_or_empty resp)) (instances_by_id c [instance_id])"
  by (simp add: find_instance_by_id_def describe_instances_ids_def for_reservations_eq
      split: sum.splits)

lemma find_instances_by_tags_result:
  "fst (find_instances_by_tags c tags) =
     (case tag_filters tags of
        Inl e \<Rightarrow> Inl e
      | Inr fs \<Rightarrow>
          map_sum ApiError (\<lambda>resp. response_volumes (get_or_empty resp))
            (instances_by_filters c
               (\<lparr>Name = ''instance-state-name'', Values = [''running'', ''stopped'']\<rparr> # fs)))"
  by (simp add: find_instances_by_tags_def describe_instances_def for_reservations_eq
      split: sum.splits)

lemma find_volumes_by_tags_result:
  "fst (find_volumes_by_tags c tags) =
     (case tag_filters tags of
        Inl e \<Rightarrow> Inl e
      | Inr fs \<Rightarrow>
          map_sum ApiError (\<lambda>resp. map Volume_VolumeId (get_or_empty resp)) (volumes_by_filters c fs))"
  by (simp add: find_volumes_by_tags_def describe_volumes_def for_vol_eq split: sum.splits)

text \<open>
  C7, as the code has it. The three locator functions return the volume identifiers of
  the response of the service in the order of the response, each as often as the response
  holds it: nothing is removed. The result is free of duplicates exactly when the
  response is. (An exception of the request, and the \<^verbatim>\<open>IndexError\<close> of a tag without
  a colon, leave the function instead.)
\<close>

theorem locator_returns_response_volumes:
  "fst (find_instance_by_id c instance_id) =
     map_sum ApiError (\<lambda>resp. response_volumes (get_or_empty resp)) (instances_by_id c [instance_id]) \<and>
   fst (find_instances_by_tags c tags) =
     (case tag_filters tags of
        Inl e \<Rightarrow> Inl e
      | Inr fs \<Rightarrow>
          map_sum ApiError (\<lambda>resp. response_volumes (get_or_empty resp))
            (instances_by_filters c
               (\<lparr>Name = ''instance-state-name'', Values = [''running'', ''stopped'']\<rparr> # fs))) \<and>
   fst (find_volumes_by_tags c tags) =
     (case tag_filters tags of
        Inl e \<Rightarrow> Inl e
      | Inr fs \<Rightarrow>
          map_sum ApiError (\<lambda>resp. map Volume_VolumeId (get_or_empty resp)) (volumes_by_filters c fs)) \<and>
   distinct (for_reservations rs []) = distinct (response_volumes rs) \<and>
   distinct (for_vol vs []) = distinct (map Volume_VolumeId vs)"
  using find_instance_by_id_result [of c instance_id] find_instances_by_tags_result [of c tags]
    find_volumes_by_tags_result [of c tags]
  by (simp add: for_reservations_eq for_vol_eq)

theorem locator_duplicates_counterexample:
  "fst (find_instances_by_tags shared_volume_conn [''Name:web'']) = Inr [''v1'', ''v1''] \<and>
   \<not> distinct [''v1'', ''v1'']"
  by code_simp

section \<open>Tag queries\<close>

lemma str_split_not_Nil: "str_split sep s \<noteq> []"
  by (induction s) (auto split: list.splits)

lemma str_split_no_sep: "sep \<notin> set s \<Longrightarrow> str_split sep s = [s]"
  by (induction s) auto

lemma str_split_first:
  "sep \<in> set s \<Longrightarrow>
   str_split sep s =
     takeWhile (\<lambda>ch. ch \<noteq> sep) s # str_split sep (tl (dropWhile (\<lambda>ch. ch \<noteq> sep) s))"
proof (induction s)
  case Nil
  then show ?case by simp
next
  case (Cons ch rest)
  show ?case
  proof (cases "ch = sep")
    case True
    then show ?thesis by simp
  next
    case False
    with Cons.prems have "sep \<in> set rest" by simp
    from Cons.IH [OF this] False show ?thesis by simp
  qed
qed

lemma str_split_hd: "hd (str_split sep s) = takeWhile (\<lambda>ch. ch \<noteq> sep) s"
proof (cases "sep \<in> set s")
  case True
  then show ?thesis by (simp add: str_split_first)
next
  case False
  then have "\<forall>ch \<in> set s. ch \<noteq> sep" by auto
  then have t: "takeWhile (\<lambda>ch. ch \<noteq> sep) s = s" by (simp add: takeWhile_eq_all_conv)
  have "hd (str_split sep s) = s" using False by (simp add: str_split_no_sep)
  then show ?thesis by (simp only: t)
qed

lemma tag_filter_eq:
  "tag_filter tag =
     (if CHR '':'' \<in> set tag
      then Inr \<lparr>Name = ''tag:'' @ tag_key tag, Values = [tag_value tag]\<rparr>
      else Inl IndexError)"
proof (cases "CHR '':'' \<in> set tag")
  case False
  then show ?thesis by (simp add: tag_filter_def getitem_def str_split_no_sep)
next
  case True
  define rest where "rest = tl (dropWhile (\<lambda>ch. ch \<noteq> CHR '':'') tag)"
  have s: "str_split CHR '':'' tag = tag_key tag # str_split CHR '':'' rest"
    using str_split_first [OF True] by (simp add: tag_key_def rest_def)
  obtain p ps where r: "str_split CHR '':'' rest = p # ps"
    using str_split_not_Nil [of "CHR '':''" rest] by (cases "str_split CHR '':'' rest") auto
  have "p = tag_value tag"
    using str_split_hd [of "CHR '':''" rest] r by (simp add: tag_value_def rest_def)
  with True s r show ?thesis by (simp add: tag_filter_def getitem_def)
qed

lemma tag_filters_eq:
  "tag_filters tags =
     (if list_all (\<lambda>tag. CHR '':'' \<in> set tag) tags
      then Inr (map (\<lambda>tag. \<lparr>Name = ''tag:'' @ tag_key tag, Values = [tag_value tag]\<rparr>) tags)
      else Inl IndexError)"
  by (induction tags) (simp_all add: tag_filter_eq)

lemma tag_key_value:
  assumes "CHR '':'' \<notin> set k"
  shows "tag_key (k @ CHR '':'' # v) = k"
    and "tag_value (k @ CHR '':'' # v) = takeWhile (\<lambda>ch. ch \<noteq> CHR '':'') v"
proof -
  have a: "\<forall>ch \<in> set k. ch \<noteq> CHR '':''" using assms by auto
  show "tag_key (k @ CHR '':'' # v) = k"
    using a by (simp add: tag_key_def takeWhile_append2)
  have "dropWhile (\<lambda>ch. ch \<noteq> CHR '':'') (k @ CHR '':'' # v) = CHR '':'' # v"
    using a by (simp add: dropWhile_append2)
  then show "tag_value (k @ CHR '':'' # v) = takeWhile (\<lambda>ch. ch \<noteq> CHR '':'') v"
    by (simp add: tag_value_def)
qed

lemma tag_filters_match:
  "filters_match attr (map (\<lambda>tag. \<lparr>Name = ''tag:'' @ tag_key tag, Values = [tag_value tag]\<rparr>) tags) =
   list_all (\<lambda>tag. tag_value tag \<in> set (attr (''tag:'' @ tag_key tag))) tags"
  by (induction tags) (simp_all add: filters_match_def filter_matches_def)


text \<open>
  C8, as the code has it. \<open>tag_filter\<close> splits the tag at every colon and takes the first
  two pieces: the key is the text before the first colon, the value is the text between
  the first colon and the second one, or the whole rest when there is no second colon. So
  a value that holds a colon is cut at that colon, and a value without one is kept whole.
  A tag without any colon raises \<^verbatim>\<open>IndexError\<close>, also inside a list of tags. For a
  list of tags that all hold a colon, the request carries one filter per tag, in order; a
  resource passes them all, under the filter rule of the service, exactly when for each
  tag the value is among the values the resource has for the key. The two tag functions
  send these filters in one request and return what the service answers.
\<close>

theorem tag_query_parsing:
  "tag_filter tag =
     (if CHR '':'' \<in> set tag
      then Inr \<lparr>Name = ''tag:'' @ tag_key tag, Values = [tag_value tag]\<rparr>
      else Inl IndexError) \<and>
   (CHR '':'' \<notin> set k \<longrightarrow>
      tag_key (k @ CHR '':'' # v) = k \<and>
      tag_value (k @ CHR '':'' # v) = takeWhile (\<lambda>ch. ch \<noteq> CHR '':'') v) \<and>
   (CHR '':'' \<notin> set k \<and> CHR '':'' \<notin> set v \<longrightarrow>
      tag_filter (k @ CHR '':'' # v) = Inr \<lparr>Name = ''tag:'' @ k, Values = [v]\<rparr>) \<and>
   tag_filters tags =
     (if list_all (\<lambda>tag. CHR '':'' \<in> set tag) tags
      then Inr (map (\<lambda>tag. \<lparr>Name = ''tag:'' @ tag_key tag, Values = [tag_value tag]\<rparr>) tags)
      else Inl IndexError) \<and>
   filters_match attr (map (\<lambda>tag. \<lparr>Name = ''tag:'' @ tag_key tag, Values = [tag_value tag]\<rparr>) tags) =
     list_all (\<lambda>tag. tag_value tag \<in> set (attr (''tag:'' @ tag_key tag))) tags \<and>
   fst (find_volumes_by_tags c tags) =
     (case tag_filters tags of
        Inl e \<Rightarrow> Inl e
      | Inr fs \<Rightarrow>
          map_sum ApiError (\<lambda>resp. map Volume_VolumeId (get_or_empty resp)) (volumes_by_filters c fs)) \<and>
   fst (find_instances_by_tags c tags) =
     (case tag_filters tags of
        Inl e \<Rightarrow> Inl e
      | Inr fs \<Rightarrow>
          map_sum ApiError (\<lambda>resp. response_volumes (get_or_empty resp))
            (instances_by_filters c
               (\<lparr>Name = ''instance-state-name'', Values = [''running'', ''stopped'']\<rparr> # fs)))"
proof -
  have whole: "tag_filter (k @ CHR '':'' # v) = Inr \<lparr>Name = ''tag:'' @ k, Values = [v]\<rparr>"
    if "CHR '':'' \<notin> set k \<and> CHR '':'' \<notin> set v"
  proof -
    have "\<forall>ch \<in> set v. ch \<noteq> CHR '':''" using that by auto
    then have "takeWhile (\<lambda>ch. ch \<noteq> CHR '':'') v = v" by (simp add: takeWhile_eq_all_conv)
    with that tag_key_value [of k v] show ?thesis by (simp add: tag_filter_eq)
  qed
  show ?thesis
    using tag_filter_eq [of tag] tag_key_value [of k v] whole tag_filters_eq [of tags]
      tag_filters_match [of attr tags] find_volumes_by_tags_result [of c tags]
      find_instances_by_tags_result [of c tags]
    by blast
qed

theorem tag_query_parsing_witness:
  "CHR '':'' \<notin> set ''Name'' \<and> CHR '':'' \<notin> set ''web'' \<and>
   tag_key (''Name'' @ CHR '':'' # ''web'') = ''Name'' \<and>
   tag_value (''Name'' @ CHR '':'' # ''web'') = ''web'' \<and>
   tag_filter (''Name'' @ CHR '':'' # ''web'') = Inr \<lparr>Name = ''tag:Name'', Values = [''web'']\<rparr>"
proof -
  have h: "CHR '':'' \<notin> set ''Name''" "CHR '':'' \<notin> set ''web''" by simp_all
  from tag_query_parsing [where k = "''Name''" and v = "''web''"] h
  show ?thesis by simp
qed

text \<open>A tag whose value holds a colon: the filter keeps only the text up to that colon.\<close>

theorem tag_value_with_colon_counterexample:
  "tag_filter ''url:http://x'' = Inr \<lparr>Name = ''tag:url'', Values = [''http'']\<rparr> \<and>
   tag_filter ''url:http://x'' \<noteq> Inr \<lparr>Name = ''tag:url'', Values = [''http://x'']\<rparr>"
  by code_simp

section \<open>The checks of the authentication setup\<close>

lemma auth_raises_input_error:
  assumes "\<not> truthy endpoint" and "\<not> region_in region default_region"
  shows "auth c profile region client_cert endpoint = (Inl InputError, c)"
  using assms by (simp add: auth_def)

lemma auth_check_passed:
  assumes "truthy endpoint \<or> region_in region default_region"
  shows "(if \<not> truthy endpoint \<and> region_in region default_region
          then Inr (Some (''https://fcu.'' @ format_str region @ ''.outscale.com''))
          else if \<not> truthy endpoint \<and> \<not> region_in region default_region
          then Inl InputError
          else Inr endpoint) =
         Inr (if truthy endpoint then endpoint
              else Some (''https://fcu.'' @ format_str region @ ''.outscale.com''))"
  using assms by auto

lemma auth_after_check:
  assumes "truthy endpoint \<or> region_in region default_region"
  shows "auth c profile region client_cert endpoint =
     (case session_fault c profile of
        Some e \<Rightarrow> (Inl (ApiError e), c)
      | None \<Rightarrow>
          (case client_fault c profile region
                  (if truthy endpoint then endpoint
                   else Some (''https://fcu.'' @ format_str region @ ''.outscale.com''))
                  (if truthy client_cert then client_cert else None) of
             Some e \<Rightarrow> (Inl (ApiError e), c)
           | None \<Rightarrow>
               (case key_pairs c of
                  Inl e \<Rightarrow> Inl (ApiError e)
                | Inr pairs \<Rightarrow>
                    (case pairs of
                       [] \<Rightarrow> Inl IndexError
                     | pair # rest \<Rightarrow>
                         Inr (if truthy endpoint then endpoint
                              else Some (''https://fcu.'' @ format_str region @ ''.outscale.com''))),
                c\<lparr>trace := trace c @ [DescribeKeyPairs]\<rparr>)))"
proof -
  define url where "url = (if truthy endpoint then endpoint
              else Some (''https://fcu.'' @ format_str region @ ''.outscale.com''))"
  define config where "config = (if truthy client_cert then client_cert else None)"
  have a: "auth c profile region client_cert endpoint =
     (case boto3_Session c profile of
             Inl e \<Rightarrow> (Inl (ApiError e), c)
           | Inr session \<Rightarrow>
               (case session_client c session region url config of
                  Inl e \<Rightarrow> (Inl (ApiError e), c)
                | Inr u \<Rightarrow>
                    (case describe_key_pairs c of
                       (Inl e, c1) \<Rightarrow> (Inl (ApiError e), c1)
                     | (Inr pairs, c1) \<Rightarrow>
                         (case getitem pairs 0 of
                            Inl e \<Rightarrow> (Inl e, c1)
                          | Inr pair \<Rightarrow> (Inr url, c1)))))"
    unfolding auth_def auth_check_passed [OF assms] url_def config_def by simp
  have k: "(case describe_key_pairs c of
                       (Inl e, c1) \<Rightarrow> (Inl (ApiError e), c1)
                     | (Inr pairs, c1) \<Rightarrow>
                         (case getitem pairs 0 of
                            Inl e \<Rightarrow> (Inl e, c1)
                          | Inr pair \<Rightarrow> (Inr url, c1))) =
      (case key_pairs c of
                  Inl e \<Rightarrow> Inl (ApiError e)
                | Inr pairs \<Rightarrow>
                    (case pairs of
                       [] \<Rightarrow> Inl IndexError
                     | pair # rest \<Rightarrow> Inr url),
                c\<lparr>trace := trace c @ [DescribeKeyPairs]\<rparr>)"
    by (simp add: describe_key_pairs_def getitem_def split: sum.splits list.splits)
  show ?thesis
    unfolding a k url_def [symmetric] config_def [symmetric]
    by (simp add: boto3_Session_def session_client_def split: option.splits)
qed


text \<open>
  C9. \<^verbatim>\<open>auth\<close> raises \<^verbatim>\<open>InputError\<close> exactly when no endpoint is given
  (\<^verbatim>\<open>None\<close> or the empty string, which Python's \<^verbatim>\<open>not endpoint\<close> treats alike)
  and the region is unspecified or not in \<^verbatim>\<open>default_region\<close>. When it does, the
  connection is untouched: no request has been sent.
\<close>

theorem auth_configuration_error:
  "(fst (auth c profile region client_cert endpoint) = Inl InputError) =
     (\<not> truthy endpoint \<and> \<not> region_in region default_region) \<and>
   (fst (auth c profile region client_cert endpoint) = Inl InputError \<longrightarrow>
      snd (auth c profile region client_cert endpoint) = c)"
proof (cases "truthy endpoint \<or> region_in region default_region")
  case True
  from auth_after_check [OF True, of c profile client_cert]
  have "fst (auth c profile region client_cert endpoint) \<noteq> Inl InputError"
    by (simp split: sum.splits list.splits option.splits)
  with True show ?thesis by auto
next
  case False
  then have "auth c profile region client_cert endpoint = (Inl InputError, c)"
    by (simp add: auth_raises_input_error)
  with False show ?thesis by simp
qed

theorem auth_configuration_error_witness:
  "fst (auth sample_conn None (Some ''mars-1'') None None) = Inl InputError \<and>
   \<not> truthy None \<and> \<not> region_in (Some ''mars-1'') default_region \<and>
   snd (auth sample_conn None (Some ''mars-1'') None None) = sample_conn \<and>
   fst (auth sample_conn None None None (Some '''')) = Inl InputError \<and>
   fst (auth sample_conn None (Some ''eu-west-2'') None None) \<noteq> Inl InputError \<and>
   fst (auth sample_conn None (Some ''mars-1'') None (Some ''https://api.mars-1.example'')) \<noteq> Inl InputError"
proof -
  have h: "\<not> truthy None" "\<not> region_in (Some ''mars-1'') default_region"
    "\<not> truthy (Some '''')" "\<not> region_in None default_region"
    "region_in (Some ''eu-west-2'') default_region" "truthy (Some ''https://api.mars-1.example'')"
    by (simp_all add: truthy_def region_in_def default_region_def)
  from auth_configuration_error [of sample_conn None "Some ''mars-1''" None None]
    auth_configuration_error [of sample_conn None None None "Some ''''"]
    auth_configuration_error [of sample_conn None "Some ''eu-west-2''" None None]
    auth_configuration_error [of sample_conn None "Some ''mars-1''" None "Some ''https://api.mars-1.example''"]
    h
  show ?thesis by simp
qed

text \<open>
  C10, as the code has it. Once the check of endpoint and region has passed,
  \<^verbatim>\<open>auth\<close> creates the session and the client. If one of the two constructors
  raises, \<^verbatim>\<open>auth\<close> raises that exception and no request has been sent. If both
  succeed, \<^verbatim>\<open>auth\<close> sends \<^verbatim>\<open>describe_key_pairs\<close>, and nothing else, and takes
  the first key pair of the answer: it raises \<^verbatim>\<open>IndexError\<close> exactly when the call
  answers with an empty list, and returns the client exactly when the answer holds at
  least one key pair.
\<close>

theorem auth_indexes_first_key_pair:
  assumes "truthy endpoint \<or> region_in region default_region"
  shows "let endpoint_url = (if truthy endpoint then endpoint
                             else Some (''https://fcu.'' @ format_str region @ ''.outscale.com''));
             config = (if truthy client_cert then client_cert else None);
             r = auth c profile region client_cert endpoint
         in (session_fault c profile = None \<and>
             client_fault c profile region endpoint_url config = None \<longrightarrow>
               trace (snd r) = trace c @ [DescribeKeyPairs] \<and>
               (fst r = Inl IndexError) = (key_pairs c = Inr []) \<and>
               (fst r = Inr endpoint_url) = (\<exists>pair rest. key_pairs c = Inr (pair # rest))) \<and>
            (session_fault c profile = Some e \<longrightarrow> r = (Inl (ApiError e), c)) \<and>
            (session_fault c profile = None \<and>
             client_fault c profile region endpoint_url config = Some e \<longrightarrow>
               r = (Inl (ApiError e), c))"
  unfolding Let_def
  using auth_after_check [OF assms, of c profile client_cert]
  by (auto split: sum.splits list.splits option.splits)

theorem auth_indexes_first_key_pair_witness:
  "region_in (Some ''eu-west-2'') default_region \<and>
   session_fault no_key_conn None = None \<and>
   client_fault no_key_conn None (Some ''eu-west-2'')
     (Some ''https://fcu.eu-west-2.outscale.com'') None = None \<and>
   key_pairs no_key_conn = Inr [] \<and>
   fst (auth no_key_conn None (Some ''eu-west-2'') None None) = Inl IndexError \<and>
   trace (snd (auth no_key_conn None (Some ''eu-west-2'') None None)) = [DescribeKeyPairs] \<and>
   session_fault sample_conn (Some ''missing'') = Some (OtherError ''ProfileNotFound'') \<and>
   fst (auth sample_conn (Some ''missing'') (Some ''eu-west-2'') None None) =
     Inl (ApiError (OtherError ''ProfileNotFound'')) \<and>
   truthy (Some ''https://api.example'') \<and>
   session_fault sample_conn None = None \<and>
   client_fault sample_conn None None (Some ''https://api.example'') None =
     Some (OtherError ''NoRegionError'') \<and>
   fst (auth sample_conn None None None (Some ''https://api.example'')) =
     Inl (ApiError (OtherError ''NoRegionError''))"
proof -
  have h: "region_in (Some ''eu-west-2'') default_region" "truthy (Some ''https://api.example'')"
    "\<not> truthy None"
    by (simp_all add: region_in_def default_region_def truthy_def)
  have k: "key_pairs no_key_conn = Inr []" "trace no_key_conn = []"
    "session_fault no_key_conn None = None"
    "client_fault no_key_conn None (Some ''eu-west-2'')
       (Some ''https://fcu.eu-west-2.outscale.com'') None = None"
    "session_fault sample_conn (Some ''missing'') = Some (OtherError ''ProfileNotFound'')"
    "session_fault sample_conn None = None"
    "client_fault sample_conn None None (Some ''https://api.example'') None =
       Some (OtherError ''NoRegionError'')"
    by (simp_all add: no_key_conn_def sample_conn_def)
  have f: "format_str (Some ''eu-west-2'') = ''eu-west-2''" by (simp add: format_str_def)
  from auth_indexes_first_key_pair [where endpoint = None and region = "Some ''eu-west-2''"
        and c = no_key_conn and profile = None and client_cert = None, unfolded Let_def]
    auth_indexes_first_key_pair [where endpoint = None and region = "Some ''eu-west-2''"
        and c = sample_conn and profile = "Some ''missing''" and client_cert = None
        and e = "OtherError ''ProfileNotFound''", unfolded Let_def]
    auth_indexes_first_key_pair [where endpoint = "Some ''https://api.example''" and region = None
        and c = sample_conn and profile = None and client_cert = None
        and e = "OtherError ''NoRegionError''", unfolded Let_def]
    h k f
  show ?thesis by simp
qed

text \<open>
  A call with a canonical region and a profile that does not exist: the check passes, the
  session constructor raises, and \<^verbatim>\<open>describe_key_pairs\<close> is never sent, although
  the account has a key pair.
\<close>

theorem auth_without_request_counterexample:
  "region_in (Some ''eu-west-2'') default_region \<and>
   fst (auth sample_conn (Some ''missing'') (Some ''eu-west-2'') None None) =
     Inl (ApiError (OtherError ''ProfileNotFound'')) \<and>
   trace (snd (auth sample_conn (Some ''missing'') (Some ''eu-west-2'') None None)) = [] \<and>
   key_pairs sample_conn = Inr [''key'']"
  by (simp add: auth_def boto3_Session_def region_in_def default_region_def truthy_def
      sample_conn_def)

end
